theory Spec2Isabelle
  imports Main "HOL-Library.AList" "HOL-Library.Sublist"
begin

section \<open>TabCap background script: data model\<close>

text \<open>
  The development follows the most recent background script of the extension, the one
  with the inactivity reaper and the tab corral (\<open>src/unnamed/part_000\<close>). Everything the browser provides is
  explicit: the list of open tabs, the persistent key-value storage, the clock and the
  platform URL parser. Badge updates and \<open>TAB_COUNT_UPDATED\<close> broadcasts only read
  the tab list and write to the toolbar and the popup; they are not part of the state.
\<close>

record tab =
  tab_id :: nat
  tab_windowId :: nat
  tab_url :: "string option"
  tab_title :: "string option"
  tab_favIconUrl :: "string option"
  tab_active :: bool
  tab_pinned :: bool
  tab_audible :: bool

record settings =
  enabled :: bool
  maxTabs :: int
  globalLimit :: bool
  allowlistEnabled :: bool
  allowlist :: "string list"
  tabLimitLocked :: bool
  inactiveEnabled :: bool
  inactiveMinutes :: int
  protectPinned :: bool
  protectAudible :: bool
  protectAllowlist :: bool
  minTabs :: "int option"
  corralMax :: int
  corralExpireHours :: int
  debounceDelay :: int
  wrangleOption :: string

definition MAX_TABS :: int where
  "MAX_TABS = 3"

definition DEFAULT_SETTINGS :: settings where
  "DEFAULT_SETTINGS =
     \<lparr>enabled = True, maxTabs = MAX_TABS, globalLimit = False, allowlistEnabled = False,
      allowlist = [], tabLimitLocked = False, inactiveEnabled = False, inactiveMinutes = 30,
      protectPinned = True, protectAudible = True, protectAllowlist = True,
      minTabs = Some 5, corralMax = 100, corralExpireHours = 24, debounceDelay = 1,
      wrangleOption = ''exactURLMatch''\<rparr>"

record stats =
  currentStreak :: int
  bestStreak :: int
  blockedToday :: int
  blockedWeek :: int
  blockedTotal :: int
  inactiveClosed :: int
  lastActiveDate :: "string option"
  lastBlockDate :: "string option"
  weekStartDate :: "string option"

definition DEFAULT_STATS :: stats where
  "DEFAULT_STATS =
     \<lparr>currentStreak = 0, bestStreak = 0, blockedToday = 0, blockedWeek = 0,
      blockedTotal = 0, inactiveClosed = 0, lastActiveDate = None, lastBlockDate = None,
      weekStartDate = None\<rparr>"

record corral_entry =
  c_url :: string
  c_title :: string
  c_favIconUrl :: string
  closedAt :: int

text \<open>
  One reading of the clock: \<open>Date.now()\<close>, \<open>new Date().toDateString()\<close>, the date
  string of 24 hours earlier, and the result of \<open>getWeekStart()\<close> (the date string of
  the Sunday that starts the current week). A handler reads the clock once.
\<close>

record clock =
  date_now :: int
  date_today :: string
  date_yesterday :: string
  getWeekStart :: string

datatype timer_action = CheckPending nat | UnexemptRestored nat

text \<open>
  The state: what the browser holds (\<open>host_tabs\<close>, the three storage keys, whether
  storage calls succeed, the scheduled timeouts) and the script's in-memory collections.
  A stored value of \<open>None\<close> is a key that was never written.
\<close>

record world =
  host_tabs :: "tab list"
  storage_ok :: bool
  settingsStore :: "settings option"
  statsStore :: "stats option"
  tabCorral :: "corral_entry list option"
  pendingTabs :: "nat \<rightharpoonup> (nat \<times> int)"
  allowlistTabs :: "nat set"
  corralRestoredTabs :: "nat set"
  tabLastAccessed :: "nat \<rightharpoonup> int"
  activatedDebounceTabId :: "nat option"
  timers :: "(int \<times> timer_action) list"

definition PENDING_TIMEOUT :: int where
  "PENDING_TIMEOUT = 300"

section \<open>Strings and URLs\<close>

text \<open>\<open>!url\<close>: an absent or empty string is falsy.\<close>

definition falsy :: "string option \<Rightarrow> bool" where
  "falsy s = (case s of None \<Rightarrow> True | Some u \<Rightarrow> u = [])"

text \<open>\<open>String.prototype.toLowerCase\<close> on ASCII text.\<close>

definition lower_char :: "char \<Rightarrow> char" where
  "lower_char c =
     (case map_of (zip ''ABCDEFGHIJKLMNOPQRSTUVWXYZ'' ''abcdefghijklmnopqrstuvwxyz'') c of
        None \<Rightarrow> c
      | Some l \<Rightarrow> l)"

definition toLowerCase :: "string \<Rightarrow> string" where
  "toLowerCase s = map lower_char s"

text \<open>\<open>s.replace(/^www\./, "")\<close>: one leading \<open>www.\<close> is removed.\<close>

definition strip_www :: "string \<Rightarrow> string" where
  "strip_www s = (if prefix ''www.'' s then drop 4 s else s)"

definition isInternalUrl :: "string option \<Rightarrow> bool" where
  "isInternalUrl url =
     (case url of None \<Rightarrow> True
      | Some u \<Rightarrow>
          if u = [] then True
          else if u = ''about:blank'' \<or> u = ''about:newtab'' then True
          else if prefix ''about:'' u then True
          else if prefix ''safari-resource:'' u then True
          else if prefix ''safari-web-extension:'' u then True
          else if prefix ''favorites://'' u then True
          else if prefix ''chrome://'' u then True
          else False)"

definition isRealUrl :: "string option \<Rightarrow> bool" where
  "isRealUrl url =
     (case url of None \<Rightarrow> False
      | Some u \<Rightarrow>
          if u = [] then False
          else if u = ''about:blank'' \<or> u = ''about:newtab'' then False
          else if prefix ''safari-resource:'' u then False
          else if prefix ''favorites://'' u then False
          else prefix ''http://'' u \<or> prefix ''https://'' u)"

text \<open>
  \<open>isUrlAllowed(url, allowlist)\<close>. The first argument is the platform's URL parser:
  \<open>H u\<close> is \<open>new URL(u).hostname\<close>, and \<open>None\<close> when the constructor throws. The
  allowlist argument is optional because the function guards against an absent one.
\<close>

definition isUrlAllowed ::
  "(string \<Rightarrow> string option) \<Rightarrow> string option \<Rightarrow> string list option \<Rightarrow> bool" where
  "isUrlAllowed H url domains =
     (case url of None \<Rightarrow> False
      | Some u \<Rightarrow>
         (case domains of None \<Rightarrow> False
          | Some al \<Rightarrow>
              if u = [] \<or> al = [] then False
              else (case H u of None \<Rightarrow> False
                    | Some h \<Rightarrow>
                        let hostname = strip_www (toLowerCase h)
                        in list_ex (\<lambda>domain.
                             let cleanDomain = strip_www (toLowerCase domain)
                             in hostname = cleanDomain \<or> suffix (''.'' @ cleanDomain) hostname)
                           al)))"

text \<open>
  A small parser for plain \<open>http://host/path\<close> and \<open>https://host/path\<close> addresses,
  used where a concrete browser is needed to run the definitions.
\<close>

definition plain_hostname :: "string \<Rightarrow> string option" where
  "plain_hostname u =
     (if prefix ''https://'' u
        then Some (toLowerCase (takeWhile (\<lambda>c. c \<noteq> CHR ''/'') (drop 8 u)))
      else if prefix ''http://'' u
        then Some (toLowerCase (takeWhile (\<lambda>c. c \<noteq> CHR ''/'') (drop 7 u)))
      else None)"

section \<open>Tab Accountant\<close>

definition tabs_query_window :: "world \<Rightarrow> nat \<Rightarrow> tab list" where
  "tabs_query_window w windowId = filter (\<lambda>t. tab_windowId t = windowId) (host_tabs w)"

definition tabs_query_all :: "world \<Rightarrow> tab list" where
  "tabs_query_all w = host_tabs w"

definition getWindowTabCount ::
  "(string \<Rightarrow> string option) \<Rightarrow> world \<Rightarrow> nat \<Rightarrow> settings option \<Rightarrow> nat" where
  "getWindowTabCount H w windowId settings =
     (let tabs = tabs_query_window w windowId in
      case settings of
        None \<Rightarrow> length tabs
      | Some s \<Rightarrow>
          if allowlistEnabled s \<and> length (allowlist s) > 0
          then length (filter (\<lambda>t. \<not> isUrlAllowed H (tab_url t) (Some (allowlist s))) tabs)
          else length tabs)"

definition getGlobalTabCount ::
  "(string \<Rightarrow> string option) \<Rightarrow> world \<Rightarrow> settings option \<Rightarrow> nat" where
  "getGlobalTabCount H w settings =
     (let tabs = tabs_query_all w in
      case settings of
        None \<Rightarrow> length tabs
      | Some s \<Rightarrow>
          if allowlistEnabled s \<and> length (allowlist s) > 0
          then length (filter (\<lambda>t. \<not> isUrlAllowed H (tab_url t) (Some (allowlist s))) tabs)
          else length tabs)"

definition getCurrentTabCount ::
  "(string \<Rightarrow> string option) \<Rightarrow> world \<Rightarrow> nat \<Rightarrow> settings \<Rightarrow> nat" where
  "getCurrentTabCount H w windowId s =
     (if globalLimit s then getGlobalTabCount H w (Some s)
      else getWindowTabCount H w windowId (Some s))"

section \<open>Settings and stats store\<close>

text \<open>
  \<open>getSettings\<close> and \<open>getStats\<close> catch a failing storage read and fall back to the
  defaults. A storage write that fails throws; \<open>None\<close> is the exception. A stored
  object is a whole record: the merge with the defaults only matters for a key that was
  never written. After a failed read the script hands out the shared \<open>DEFAULT_STATS\<close>
  object itself; that aliasing is not tracked, and the statements about stats below are
  for working storage.
\<close>

definition getSettings :: "world \<Rightarrow> settings" where
  "getSettings w =
     (if storage_ok w
      then (case settingsStore w of None \<Rightarrow> DEFAULT_SETTINGS | Some s \<Rightarrow> s)
      else DEFAULT_SETTINGS)"

definition updateStreak :: "clock \<Rightarrow> stats \<Rightarrow> stats" where
  "updateStreak clk st =
     (let st1 =
        (if falsy (lastActiveDate st)
           then st\<lparr>currentStreak := 1, lastActiveDate := Some (date_today clk)\<rparr>
         else if lastActiveDate st = Some (date_today clk) then st
         else if lastActiveDate st = Some (date_yesterday clk)
           then st\<lparr>currentStreak := currentStreak st + 1,
                   lastActiveDate := Some (date_today clk)\<rparr>
         else st\<lparr>currentStreak := 1, lastActiveDate := Some (date_today clk)\<rparr>)
      in if currentStreak st1 > bestStreak st1
         then st1\<lparr>bestStreak := currentStreak st1\<rparr> else st1)"

definition getStats :: "clock \<Rightarrow> world \<Rightarrow> stats" where
  "getStats clk w =
     (if \<not> storage_ok w then DEFAULT_STATS
      else
        let st = (case statsStore w of None \<Rightarrow> DEFAULT_STATS | Some s \<Rightarrow> s);
            st1 = (if lastBlockDate st \<noteq> Some (date_today clk)
                   then st\<lparr>blockedToday := 0\<rparr> else st);
            st2 = (if weekStartDate st1 \<noteq> Some (getWeekStart clk)
                   then st1\<lparr>blockedWeek := 0, weekStartDate := Some (getWeekStart clk)\<rparr>
                   else st1)
        in updateStreak clk st2)"

definition saveStats :: "stats \<Rightarrow> world \<Rightarrow> world option" where
  "saveStats st w = (if storage_ok w then Some (w\<lparr>statsStore := Some st\<rparr>) else None)"

definition incrementBlocked :: "clock \<Rightarrow> world \<Rightarrow> world option" where
  "incrementBlocked clk w =
     (let st = getStats clk w;
          st1 = st\<lparr>blockedToday := blockedToday st + 1,
                   blockedWeek := blockedWeek st + 1,
                   blockedTotal := blockedTotal st + 1,
                   lastBlockDate := Some (date_today clk)\<rparr>;
          st2 = updateStreak clk st1
      in saveStats st2 w)"

definition incrementInactiveClosed :: "clock \<Rightarrow> int \<Rightarrow> world \<Rightarrow> world option" where
  "incrementInactiveClosed clk count w =
     (let st = getStats clk w;
          st1 = st\<lparr>inactiveClosed := inactiveClosed st + count\<rparr>
      in saveStats st1 w)"

section \<open>Enforcement policy\<close>

text \<open>
  \<open>browser.tabs.remove\<close> and \<open>browser.tabs.get\<close> reject when no tab has the
  identifier.
\<close>

definition tabs_remove :: "nat \<Rightarrow> world \<Rightarrow> world option" where
  "tabs_remove tabId w =
     (if list_ex (\<lambda>t. tab_id t = tabId) (host_tabs w)
      then Some (w\<lparr>host_tabs := filter (\<lambda>t. tab_id t \<noteq> tabId) (host_tabs w)\<rparr>)
      else None)"

definition tabs_get :: "nat \<Rightarrow> world \<Rightarrow> tab option" where
  "tabs_get tabId w = find (\<lambda>t. tab_id t = tabId) (host_tabs w)"

definition closeTab :: "clock \<Rightarrow> nat \<Rightarrow> world \<Rightarrow> world" where
  "closeTab clk tabId w =
     (let w1 = w\<lparr>pendingTabs := (pendingTabs w)(tabId := None),
                  allowlistTabs := allowlistTabs w - {tabId}\<rparr>
      in case tabs_remove tabId w1 of
           None \<Rightarrow> w1
         | Some w2 \<Rightarrow> (case incrementBlocked clk w2 of None \<Rightarrow> w2 | Some w3 \<Rightarrow> w3))"

definition checkPendingTab ::
  "(string \<Rightarrow> string option) \<Rightarrow> clock \<Rightarrow> nat \<Rightarrow> world \<Rightarrow> world" where
  "checkPendingTab H clk tabId w =
     (case pendingTabs w tabId of
        None \<Rightarrow> w
      | Some pending \<Rightarrow>
          if date_now clk - snd pending < PENDING_TIMEOUT then w
          else
            let w1 = w\<lparr>pendingTabs := (pendingTabs w)(tabId := None)\<rparr>;
                s = getSettings w1
            in if \<not> enabled s then w1
               else if \<not> allowlistEnabled s then w1
               else (case tabs_get tabId w1 of
                       None \<Rightarrow> w1
                     | Some t \<Rightarrow>
                         if isRealUrl (tab_url t)
                            \<and> isUrlAllowed H (tab_url t) (Some (allowlist s))
                         then w1\<lparr>allowlistTabs := insert tabId (allowlistTabs w1)\<rparr>
                         else if int (getCurrentTabCount H w1 (tab_windowId t) s) \<le> maxTabs s
                         then w1
                         else closeTab clk tabId w1))"

definition handleTabCreated ::
  "(string \<Rightarrow> string option) \<Rightarrow> clock \<Rightarrow> tab \<Rightarrow> world \<Rightarrow> world" where
  "handleTabCreated H clk t w =
     (let s = getSettings w in
      if \<not> enabled s then w
      else if tab_id t \<in> corralRestoredTabs w then w
      else
        let w1 = (if allowlistEnabled s \<and> isRealUrl (tab_url t)
                     \<and> isUrlAllowed H (tab_url t) (Some (allowlist s))
                  then w\<lparr>allowlistTabs := insert (tab_id t) (allowlistTabs w)\<rparr>
                  else w);
            tabCount = getCurrentTabCount H w1 (tab_windowId t) s
        in if int tabCount \<le> maxTabs s then w1
           else if allowlistEnabled s then
             (if isRealUrl (tab_url t) then
                (if isUrlAllowed H (tab_url t) (Some (allowlist s)) then w1
                 else closeTab clk (tab_id t) w1)
              else w1\<lparr>pendingTabs :=
                         (pendingTabs w1)(tab_id t \<mapsto> (tab_windowId t, date_now clk)),
                       timers := timers w1 @
                         [(date_now clk + (PENDING_TIMEOUT + 50), CheckPending (tab_id t))]\<rparr>)
           else closeTab clk (tab_id t) w1)"

text \<open>
  \<open>handleTabUpdated(tabId, changeInfo, tab)\<close>; the second argument is
  \<open>changeInfo.url\<close>.
\<close>

definition handleTabUpdated ::
  "(string \<Rightarrow> string option) \<Rightarrow> clock \<Rightarrow> nat \<Rightarrow> string option \<Rightarrow> tab \<Rightarrow> world \<Rightarrow> world" where
  "handleTabUpdated H clk tabId changeUrl t w =
     (let url = (if falsy changeUrl then tab_url t else changeUrl) in
      if falsy url then w
      else if \<not> isRealUrl url then w
      else
        let s = getSettings w in
        if \<not> enabled s then w
        else if \<not> allowlistEnabled s then w
        else
          let isNowAllowlisted = isUrlAllowed H url (Some (allowlist s));
              wasAllowlisted = (tabId \<in> allowlistTabs w)
          in if pendingTabs w tabId \<noteq> None then
               (let w1 = w\<lparr>pendingTabs := (pendingTabs w)(tabId := None)\<rparr>
                in if isNowAllowlisted
                   then w1\<lparr>allowlistTabs := insert tabId (allowlistTabs w1)\<rparr>
                   else if int (getCurrentTabCount H w1 (tab_windowId t) s) > maxTabs s
                   then closeTab clk tabId w1
                   else w1)
             else if isNowAllowlisted \<and> \<not> wasAllowlisted
               then w\<lparr>allowlistTabs := insert tabId (allowlistTabs w)\<rparr>
             else if \<not> isNowAllowlisted \<and> wasAllowlisted then
               (let w1 = w\<lparr>allowlistTabs := allowlistTabs w - {tabId}\<rparr>
                in if int (getCurrentTabCount H w1 (tab_windowId t) s) > maxTabs s
                   then closeTab clk tabId w1
                   else w1)
             else w)"

text \<open>A timeout that fires runs its callback.\<close>

definition fire_timer ::
  "(string \<Rightarrow> string option) \<Rightarrow> clock \<Rightarrow> timer_action \<Rightarrow> world \<Rightarrow> world" where
  "fire_timer H clk a w =
     (case a of
        CheckPending tabId \<Rightarrow> checkPendingTab H clk tabId w
      | UnexemptRestored tabId \<Rightarrow> w\<lparr>corralRestoredTabs := corralRestoredTabs w - {tabId}\<rparr>)"

section \<open>Corral\<close>

text \<open>\<open>findIndex\<close> followed by \<open>splice(existingIdx, 1)\<close>: the first match goes.\<close>

fun remove_first :: "('a \<Rightarrow> bool) \<Rightarrow> 'a list \<Rightarrow> 'a list" where
  "remove_first p [] = []"
| "remove_first p (x # xs) = (if p x then xs else x # remove_first p xs)"

definition or_default :: "string option \<Rightarrow> string \<Rightarrow> string" where
  "or_default v d = (if falsy v then d else the v)"

definition new_corral_entry :: "clock \<Rightarrow> tab \<Rightarrow> corral_entry" where
  "new_corral_entry clk t =
     \<lparr>c_url = or_default (tab_url t) [],
      c_title = or_default (tab_title t) ''Untitled'',
      c_favIconUrl = or_default (tab_favIconUrl t) [],
      closedAt = date_now clk\<rparr>"

text \<open>
  The deduplication step of the loop body. \<open>new URL(undefined)\<close> parses the text
  \<open>undefined\<close>; a parse failure of the closed tab's address skips the step.
\<close>

definition dedup ::
  "(string \<Rightarrow> string option) \<Rightarrow> string \<Rightarrow> tab \<Rightarrow> corral_entry list \<Rightarrow> corral_entry list" where
  "dedup H option t corral =
     (if option = ''exactURLMatch''
        then remove_first (\<lambda>e. Some (c_url e) = tab_url t) corral
      else if option = ''hostnameAndTitleMatch''
        then (case H (case tab_url t of None \<Rightarrow> ''undefined'' | Some u \<Rightarrow> u) of
                None \<Rightarrow> corral
              | Some tabHostname \<Rightarrow>
                  remove_first
                    (\<lambda>e. H (c_url e) = Some tabHostname
                         \<and> c_title e = or_default (tab_title t) ''Untitled'')
                    corral)
      else corral)"

definition corral_step ::
  "(string \<Rightarrow> string option) \<Rightarrow> clock \<Rightarrow> string \<Rightarrow> corral_entry list \<Rightarrow> tab \<Rightarrow> corral_entry list" where
  "corral_step H clk option corral t = new_corral_entry clk t # dedup H option t corral"

text \<open>
  \<open>addToCorral(tabs)\<close>. Everything sits in one \<open>try\<close>: a failing storage call, or
  the \<open>RangeError\<close> of assigning a negative \<open>length\<close>, leaves the stored corral as
  it was.
\<close>

definition addToCorral ::
  "(string \<Rightarrow> string option) \<Rightarrow> clock \<Rightarrow> tab list \<Rightarrow> world \<Rightarrow> world" where
  "addToCorral H clk tabs w =
     (if \<not> storage_ok w then w
      else
        let s = getSettings w;
            corral0 = (case tabCorral w of None \<Rightarrow> [] | Some c \<Rightarrow> c);
            option = (if wrangleOption s = [] then ''exactURLMatch'' else wrangleOption s);
            corral = foldl (corral_step H clk option) corral0 tabs;
            mx = (if corralMax s = 0 then 100 else corralMax s)
        in if int (length corral) > mx
           then (if mx < 0 then w else w\<lparr>tabCorral := Some (take (nat mx) corral)\<rparr>)
           else w\<lparr>tabCorral := Some corral\<rparr>)"

definition getCorral :: "world \<Rightarrow> corral_entry list" where
  "getCorral w =
     (if storage_ok w then (case tabCorral w of None \<Rightarrow> [] | Some c \<Rightarrow> c) else [])"

text \<open>
  \<open>restoreFromCorral(index)\<close>. The first argument is \<open>browser.tabs.create\<close>: the
  tab the browser opens for an address, or \<open>None\<close> when it rejects the call.
\<close>

definition restoreFromCorral ::
  "(string \<Rightarrow> tab option) \<Rightarrow> clock \<Rightarrow> int \<Rightarrow> world \<Rightarrow> bool \<times> world" where
  "restoreFromCorral create clk index w =
     (if \<not> storage_ok w then (False, w)
      else
        let corral = (case tabCorral w of None \<Rightarrow> [] | Some c \<Rightarrow> c) in
        if index < 0 \<or> index \<ge> int (length corral) then (False, w)
        else
          let entry = corral ! nat index;
              corral1 = take (nat index) corral @ drop (Suc (nat index)) corral;
              w1 = w\<lparr>tabCorral := Some corral1\<rparr>
          in case create (c_url entry) of
               None \<Rightarrow> (False, w1)
             | Some newTab \<Rightarrow>
                 (True,
                  w1\<lparr>host_tabs := host_tabs w1 @ [newTab],
                     corralRestoredTabs := insert (tab_id newTab) (corralRestoredTabs w1),
                     timers := timers w1 @
                       [(date_now clk + 5000, UnexemptRestored (tab_id newTab))]\<rparr>))"

section \<open>Inactivity reaper\<close>

record candidate =
  cand_id :: nat
  cand_windowId :: nat
  cand_elapsed :: int

definition clamp_future :: "int \<Rightarrow> (nat \<rightharpoonup> int) \<Rightarrow> (nat \<rightharpoonup> int)" where
  "clamp_future now la =
     (\<lambda>k. case la k of None \<Rightarrow> None | Some ts \<Rightarrow> Some (if ts > now then now else ts))"

text \<open>The \<open>windowTabs\<close> map, in insertion order.\<close>

definition group_step :: "(nat \<times> tab list) list \<Rightarrow> tab \<Rightarrow> (nat \<times> tab list) list" where
  "group_step wt t =
     AList.update (tab_windowId t)
       ((case map_of wt (tab_windowId t) of None \<Rightarrow> [] | Some ts \<Rightarrow> ts) @ [t]) wt"

definition group_by_window :: "tab list \<Rightarrow> (nat \<times> tab list) list" where
  "group_by_window allTabs = foldl group_step [] allTabs"

definition effective_minTabs :: "settings \<Rightarrow> int" where
  "effective_minTabs s = max 0 (case minTabs s of None \<Rightarrow> 5 | Some m \<Rightarrow> m)"

text \<open>
  One iteration of the loop over \<open>allTabs\<close> that refreshes protected tabs and collects
  the close candidates. A missing or zero time stamp is falsy.
\<close>

definition scan_step ::
  "(string \<Rightarrow> string option) \<Rightarrow> settings \<Rightarrow> int \<Rightarrow> int \<Rightarrow> nat option \<Rightarrow>
   (nat \<rightharpoonup> int) \<times> candidate list \<Rightarrow> tab \<Rightarrow> (nat \<rightharpoonup> int) \<times> candidate list" where
  "scan_step H s now limitMs debounceId acc t =
     (let la = fst acc; cs = snd acc in
      if tab_active t
        then (if debounceId \<noteq> Some (tab_id t) then (la(tab_id t \<mapsto> now), cs) else (la, cs))
      else if isInternalUrl (tab_url t) then (la(tab_id t \<mapsto> now), cs)
      else if protectPinned s \<and> tab_pinned t then (la(tab_id t \<mapsto> now), cs)
      else if protectAudible s \<and> tab_audible t then (la(tab_id t \<mapsto> now), cs)
      else if protectAllowlist s \<and> allowlistEnabled s \<and> length (allowlist s) > 0
              \<and> isUrlAllowed H (tab_url t) (Some (allowlist s))
        then (la(tab_id t \<mapsto> now), cs)
      else (case la (tab_id t) of
              None \<Rightarrow> (la(tab_id t \<mapsto> now), cs)
            | Some lastAccessed \<Rightarrow>
                if lastAccessed = 0 then (la(tab_id t \<mapsto> now), cs)
                else
                  let elapsed = now - lastAccessed in
                  if elapsed \<ge> limitMs
                  then (la, cs @ [\<lparr>cand_id = tab_id t, cand_windowId = tab_windowId t,
                                    cand_elapsed = elapsed\<rparr>])
                  else (la, cs)))"

text \<open>Windows at or below the floor get fresh time stamps for all their tabs.\<close>

definition reset_step :: "int \<Rightarrow> int \<Rightarrow> (nat \<rightharpoonup> int) \<Rightarrow> nat \<times> tab list \<Rightarrow> (nat \<rightharpoonup> int)" where
  "reset_step now minT la entry =
     (if int (length (snd entry)) \<le> minT
      then foldl (\<lambda>m t. m(tab_id t \<mapsto> now)) la (snd entry)
      else la)"

text \<open>
  One iteration of the loop over \<open>eligibleToClose\<close>. The state is
  \<open>windowRemaining\<close>, the time stamps and \<open>tabsToActuallyClose\<close>. A window missing
  from \<open>windowRemaining\<close> compares as \<open>undefined <= minTabs\<close>, which is false, and
  its count stays not-a-number.
\<close>

definition accept_step ::
  "int \<Rightarrow> int \<Rightarrow> tab list \<Rightarrow>
   (nat \<times> int) list \<times> (nat \<rightharpoonup> int) \<times> (candidate \<times> tab) list \<Rightarrow> candidate \<Rightarrow>
   (nat \<times> int) list \<times> (nat \<rightharpoonup> int) \<times> (candidate \<times> tab) list" where
  "accept_step now minT allTabs st c =
     (let wr = fst st; la = fst (snd st); acc = snd (snd st) in
      case map_of wr (cand_windowId c) of
        None \<Rightarrow>
          (wr, la, (case find (\<lambda>t. tab_id t = cand_id c) allTabs of
                      None \<Rightarrow> acc | Some t \<Rightarrow> acc @ [(c, t)]))
      | Some remaining \<Rightarrow>
          if remaining \<le> minT then (wr, la(cand_id c \<mapsto> now), acc)
          else
            (AList.update (cand_windowId c) (remaining - 1) wr, la,
             (case find (\<lambda>t. tab_id t = cand_id c) allTabs of
                None \<Rightarrow> acc | Some t \<Rightarrow> acc @ [(c, t)])))"

text \<open>
  The removals run in parallel and each catches its own rejection; the state is the tab
  list and the number of successes.
\<close>

definition remove_step :: "world \<times> int \<Rightarrow> nat \<Rightarrow> world \<times> int" where
  "remove_step st tabId =
     (case tabs_remove tabId (fst st) of
        None \<Rightarrow> st
      | Some w1 \<Rightarrow> (w1, snd st + 1))"

text \<open>
  \<open>_doInactiveCheck()\<close>. The sort is stable and descending in the elapsed time. A
  failing write of the stats rejects the pass after the tabs are closed and the corral
  is written.
\<close>

definition doInactiveCheck ::
  "(string \<Rightarrow> string option) \<Rightarrow> clock \<Rightarrow> world \<Rightarrow> world" where
  "doInactiveCheck H clk w =
     (let s = getSettings w in
      if \<not> inactiveEnabled s then w
      else
        let now = date_now clk;
            limitMs = inactiveMinutes s * 60 * 1000;
            la0 = clamp_future now (tabLastAccessed w);
            allTabs = tabs_query_all w;
            windowTabs = group_by_window allTabs;
            minT = effective_minTabs s;
            scanned = foldl (scan_step H s now limitMs (activatedDebounceTabId w))
                        (la0, []) allTabs;
            la1 = fst scanned;
            tabsToClose = sort_key (\<lambda>c. - cand_elapsed c) (snd scanned);
            windowRemaining = map (\<lambda>e. (fst e, int (length (snd e)))) windowTabs;
            la2 = foldl (reset_step now minT) la1 windowTabs;
            eligibleToClose =
              filter (\<lambda>c. case map_of windowRemaining (cand_windowId c) of
                             None \<Rightarrow> False | Some n \<Rightarrow> n > minT) tabsToClose;
            accepted = foldl (accept_step now minT allTabs)
                         (windowRemaining, la2, []) eligibleToClose;
            la3 = fst (snd accepted);
            tabsToActuallyClose = snd (snd accepted)
        in if tabsToActuallyClose = [] then w\<lparr>tabLastAccessed := la3\<rparr>
           else
             let ids = map (\<lambda>p. cand_id (fst p)) tabsToActuallyClose;
                 closedTabs = map snd tabsToActuallyClose;
                 la4 = foldl (\<lambda>m i. m(i := None)) la3 ids;
                 removed = foldl remove_step (w\<lparr>tabLastAccessed := la4\<rparr>, 0) ids;
                 w1 = addToCorral H clk closedTabs (fst removed)
             in (case incrementInactiveClosed clk (snd removed) w1 of
                   None \<Rightarrow> w1
                 | Some w2 \<Rightarrow> w2))"

text \<open>The number of entries of \<open>tabsToActuallyClose\<close> that belong to a window.\<close>

definition accepted_in :: "nat \<Rightarrow> (candidate \<times> tab) list \<Rightarrow> nat" where
  "accepted_in W acc = length (filter (\<lambda>p. cand_windowId (fst p) = W) acc)"

text \<open>A candidate that records the identifier and window of one of the listed tabs.\<close>

definition from_tab :: "tab list \<Rightarrow> candidate \<Rightarrow> bool" where
  "from_tab allTabs c =
     (\<exists>t \<in> set allTabs. tab_id t = cand_id c \<and> tab_windowId t = cand_windowId c)"

text \<open>
  The value of \<open>tabsToActuallyClose\<close> in a pass of \<open>_doInactiveCheck\<close> that gets
  past the \<open>inactiveEnabled\<close> test: the same chain of bindings, up to the loop over
  \<open>eligibleToClose\<close>.
\<close>

definition tabsToActuallyClose :: "(string \<Rightarrow> string option) \<Rightarrow> clock \<Rightarrow> world \<Rightarrow> (candidate \<times> tab) list" where
  "tabsToActuallyClose H clk w =
     (let s = getSettings w;
          now = date_now clk;
          limitMs = inactiveMinutes s * 60 * 1000;
          la0 = clamp_future now (tabLastAccessed w);
          allTabs = tabs_query_all w;
          windowTabs = group_by_window allTabs;
          minT = effective_minTabs s;
          scanned = foldl (scan_step H s now limitMs (activatedDebounceTabId w))
                      (la0, []) allTabs;
          la1 = fst scanned;
          tabsToClose = sort_key (\<lambda>c. - cand_elapsed c) (snd scanned);
          windowRemaining = map (\<lambda>e. (fst e, int (length (snd e)))) windowTabs;
          la2 = foldl (reset_step now minT) la1 windowTabs;
          eligibleToClose =
            filter (\<lambda>c. case map_of windowRemaining (cand_windowId c) of
                           None \<Rightarrow> False | Some n \<Rightarrow> n > minT) tabsToClose;
          accepted = foldl (accept_step now minT allTabs)
                       (windowRemaining, la2, []) eligibleToClose
      in snd (snd accepted))"

section \<open>Concrete inputs\<close>

definition example_tab :: "nat \<Rightarrow> nat \<Rightarrow> string \<Rightarrow> tab" where
  "example_tab i wid u =
     \<lparr>tab_id = i, tab_windowId = wid, tab_url = Some u, tab_title = None,
      tab_favIconUrl = None, tab_active = False, tab_pinned = False, tab_audible = False\<rparr>"

definition example_world :: "tab list \<Rightarrow> settings \<Rightarrow> world" where
  "example_world ts s =
     \<lparr>host_tabs = ts, storage_ok = True, settingsStore = Some s, statsStore = None,
      tabCorral = None, pendingTabs = Map.empty, allowlistTabs = {},
      corralRestoredTabs = {}, tabLastAccessed = Map.empty,
      activatedDebounceTabId = None, timers = []\<rparr>"

definition example_clock :: clock where
  "example_clock =
     \<lparr>date_now = 1000000, date_today = ''Mon Nov 02 2026'',
      date_yesterday = ''Sun Nov 01 2026'', getWeekStart = ''Sun Nov 01 2026''\<rparr>"

definition example_stats :: stats where
  "example_stats =
     \<lparr>currentStreak = 2, bestStreak = 4, blockedToday = 5, blockedWeek = 9,
      blockedTotal = 40, inactiveClosed = 0, lastActiveDate = Some ''Sun Nov 01 2026'',
      lastBlockDate = Some ''Sun Nov 01 2026'', weekStartDate = Some ''Sun Nov 01 2026''\<rparr>"

definition four_tab_world :: world where
  "four_tab_world =
     (example_world
        [example_tab 1 1 ''https://a.com/'', example_tab 2 1 ''https://b.org/'',
         example_tab 3 1 ''https://c.net/'', example_tab 4 1 ''https://d.io/'']
        DEFAULT_SETTINGS)\<lparr>statsStore := Some example_stats\<rparr>"

definition example_entry :: "string \<Rightarrow> int \<Rightarrow> corral_entry" where
  "example_entry u ts = \<lparr>c_url = u, c_title = ''Untitled'', c_favIconUrl = [], closedAt = ts\<rparr>"

definition corral_world :: world where
  "corral_world =
     (example_world [example_tab 1 1 ''https://a.com/''] DEFAULT_SETTINGS)
       \<lparr>tabCorral := Some [example_entry ''https://x.com/'' 300,
                            example_entry ''https://a.com'' 200,
                            example_entry ''https://y.com/'' 100]\<rparr>"

definition example_create :: "string \<Rightarrow> tab option" where
  "example_create u = (if isRealUrl (Some u) then Some (example_tab 9 1 u) else None)"

definition blank_tab :: "nat \<Rightarrow> nat \<Rightarrow> tab" where
  "blank_tab i wid =
     \<lparr>tab_id = i, tab_windowId = wid, tab_url = None, tab_title = None,
      tab_favIconUrl = None, tab_active = True, tab_pinned = False, tab_audible = False\<rparr>"

definition blank_tab_world :: world where
  "blank_tab_world =
     example_world
       [example_tab 1 1 ''https://a.com/'', example_tab 2 1 ''https://b.org/'',
        example_tab 3 1 ''https://c.net/'', blank_tab 4 1]
       DEFAULT_SETTINGS"

definition allowlisting_world :: world where
  "allowlisting_world =
     example_world
       [example_tab 1 1 ''https://a.com/'', example_tab 2 1 ''https://b.org/'',
        example_tab 3 1 ''https://c.net/'', blank_tab 4 1]
       (DEFAULT_SETTINGS\<lparr>allowlistEnabled := True, allowlist := [''example.com'']\<rparr>)"

definition later_clock :: clock where
  "later_clock = example_clock\<lparr>date_now := 1000350\<rparr>"

text \<open>
  States the browser may be in when the re-check of tab 4 fires: tab 4 is still registered
  as pending since time 1000000, the tab list and the settings are as given.
\<close>

definition pending_world :: "tab list \<Rightarrow> settings \<Rightarrow> world" where
  "pending_world ts s = (example_world ts s)\<lparr>pendingTabs := [4 \<mapsto> (1, 1000000)]\<rparr>"

definition allowlisting_settings :: settings where
  "allowlisting_settings =
     DEFAULT_SETTINGS\<lparr>allowlistEnabled := True, allowlist := [''example.com'']\<rparr>"

definition idle_tab :: "nat \<Rightarrow> nat \<Rightarrow> bool \<Rightarrow> tab" where
  "idle_tab i wid a =
     \<lparr>tab_id = i, tab_windowId = wid, tab_url = Some ''https://a.com/'', tab_title = None,
      tab_favIconUrl = None, tab_active = a, tab_pinned = False, tab_audible = False\<rparr>"

definition reaper_world :: world where
  "reaper_world =
     (example_world [idle_tab 1 1 True, idle_tab 2 1 False, idle_tab 3 1 False]
        (DEFAULT_SETTINGS\<lparr>inactiveEnabled := True, minTabs := Some 2\<rparr>))
       \<lparr>tabLastAccessed := [1 \<mapsto> 1000, 2 \<mapsto> 1000, 3 \<mapsto> 2000]\<rparr>"

definition reaper_clock :: clock where
  "reaper_clock = example_clock\<lparr>date_now := 3601000\<rparr>"

definition five_tab_world :: world where
  "five_tab_world =
     example_world
       [example_tab 1 1 ''https://a.com/'', example_tab 2 1 ''https://b.org/'',
        example_tab 3 1 ''https://c.net/'', blank_tab 4 1, example_tab 5 1 ''https://d.io/'']
       allowlisting_settings"

section \<open>Properties of allowlist matching\<close>

lemma toLowerCase_append: "toLowerCase (a @ b) = toLowerCase a @ toLowerCase b"
  by (simp add: toLowerCase_def)

lemma drop_append_long: "n \<le> length xs \<Longrightarrow> drop n (xs @ ys) = drop n xs @ ys"
  by simp

lemma toLowerCase_dot: "toLowerCase (CHR ''.'' # d) = CHR ''.'' # toLowerCase d"
  by (simp add: toLowerCase_def lower_char_def)

lemma toLowerCase_www: "toLowerCase (''www.'' @ d) = ''www.'' @ toLowerCase d"
  by (simp add: toLowerCase_def lower_char_def)

lemma strip_www_suffix:
  assumes "suffix (''.'' @ d) h"
  shows "strip_www h = strip_www d \<or> suffix (''.'' @ strip_www d) (strip_www h)"
proof -
  from assms obtain p where h: "h = p @ ''.'' @ d" by (auto simp: suffix_def)
  show ?thesis
  proof (cases "prefix ''www.'' d")
    case True
    then obtain r where d: "d = ''www.'' @ r" by (auto simp: prefix_def)
    have hh: "h = (p @ ''.www'') @ (''.'' @ r)" by (simp add: h d)
    have "suffix (''.'' @ r) (strip_www h)"
    proof (cases "prefix ''www.'' h")
      case True
      have "drop 4 h = drop 4 (p @ ''.www'') @ (''.'' @ r)"
        unfolding hh by (rule drop_append_long) simp
      then show ?thesis using True by (simp add: strip_www_def suffix_def)
    next
      case False
      then show ?thesis unfolding strip_www_def using hh by (simp add: suffix_def)
    qed
    moreover have "strip_www d = r" by (simp add: strip_www_def d)
    ultimately show ?thesis by simp
  next
    case nd: False
    then have sd: "strip_www d = d" by (simp add: strip_www_def)
    show ?thesis
    proof (cases "prefix ''www.'' h")
      case False
      then have "strip_www h = h" by (simp add: strip_www_def)
      then show ?thesis using assms by (simp add: sd)
    next
      case True
      show ?thesis
      proof (cases "length p \<ge> 4")
        case True
        then have "drop 4 h = drop 4 p @ (''.'' @ d)"
          unfolding h by (rule drop_append_long)
        moreover have "strip_www h = drop 4 h"
          using \<open>prefix ''www.'' h\<close> by (simp add: strip_www_def)
        ultimately show ?thesis by (simp add: sd suffix_def)
      next
        case False
        with True have "p = ''www''"
          unfolding h
          by (cases p; cases "tl p"; cases "tl (tl p)"; cases "tl (tl (tl p))") auto
        then have "strip_www h = d" using True by (simp add: h strip_www_def)
        then show ?thesis by (simp add: sd)
      qed
    qed
  qed
qed

lemma norm_match:
  assumes "h = d \<or> suffix (''.'' @ d) h"
  shows "strip_www (toLowerCase h) = strip_www (toLowerCase d)
         \<or> suffix (''.'' @ strip_www (toLowerCase d)) (strip_www (toLowerCase h))"
proof (cases "h = d")
  case True then show ?thesis by simp
next
  case False
  with assms obtain p where "h = p @ ''.'' @ d" by (auto simp: suffix_def)
  then have "toLowerCase h = toLowerCase p @ ''.'' @ toLowerCase d"
    by (simp add: toLowerCase_append toLowerCase_dot)
  then have "suffix (''.'' @ toLowerCase d) (toLowerCase h)" by (simp add: suffix_def)
  then show ?thesis by (rule strip_www_suffix)
qed

lemma isUrlAllowed_match:
  assumes "u \<noteq> []" "H u = Some h" "d \<in> set al" "h = d \<or> suffix (''.'' @ d) h"
  shows "isUrlAllowed H (Some u) (Some al)"
proof -
  have "al \<noteq> []" using assms(3) by auto
  moreover have "list_ex (\<lambda>domain. strip_www (toLowerCase h) = strip_www (toLowerCase domain)
      \<or> suffix (''.'' @ strip_www (toLowerCase domain)) (strip_www (toLowerCase h))) al"
    unfolding list_ex_iff using assms(3) norm_match[OF assms(4)] by blast
  ultimately show ?thesis using assms(1,2) by (simp add: isUrlAllowed_def Let_def)
qed

lemma strip_www_lower_www: "strip_www (toLowerCase (''www.'' @ h)) = toLowerCase h"
  by (simp add: strip_www_def toLowerCase_def lower_char_def)

lemma toLowerCase_fixes_other_chars:
  "c \<notin> set ''ABCDEFGHIJKLMNOPQRSTUVWXYZ'' \<Longrightarrow> toLowerCase [c] = [c]"
  by (simp add: toLowerCase_def lower_char_def)

lemma toLowerCase_alphabet:
  "toLowerCase ''ABCDEFGHIJKLMNOPQRSTUVWXYZ'' = ''abcdefghijklmnopqrstuvwxyz''"
  by code_simp

text \<open>
  Claim C9. Matching is normalised. What the normal form is: lower-casing keeps the
  length, works character by character, turns \<open>A\<close> to \<open>Z\<close> into \<open>a\<close> to \<open>z\<close> and
  leaves every other character alone; stripping removes one leading \<open>www.\<close> and leaves
  a string without that prefix alone. \<open>isUrlAllowed\<close> is true exactly when, for some
  entry, the normal form of the hostname equals the normal form of the entry or ends in a
  dot followed by it; a hostname that does neither for every entry is not allowed. So a
  hostname \<open>www.h\<close> matches an entry that equals \<open>h\<close> up to case, and a hostname
  \<open>h\<close> (not itself starting with \<open>www.\<close>) matches an entry \<open>www.d\<close> with \<open>d\<close>
  equal to \<open>h\<close> up to case. An address the parser rejects, an absent or empty address,
  and an absent or empty allowlist give \<open>False\<close>; the function has no failing result.
\<close>

theorem isUrlAllowed_normalised:
  "length (toLowerCase x) = length x
   \<and> toLowerCase (x @ y) = toLowerCase x @ toLowerCase y
   \<and> toLowerCase ''ABCDEFGHIJKLMNOPQRSTUVWXYZ'' = ''abcdefghijklmnopqrstuvwxyz''
   \<and> (c \<notin> set ''ABCDEFGHIJKLMNOPQRSTUVWXYZ'' \<longrightarrow> toLowerCase [c] = [c])
   \<and> strip_www (''www.'' @ x) = x
   \<and> (\<not> prefix ''www.'' x \<longrightarrow> strip_www x = x)
   \<and> (u \<noteq> [] \<and> al \<noteq> [] \<and> H u = Some h \<longrightarrow>
      isUrlAllowed H (Some u) (Some al) =
        (\<exists>d \<in> set al.
           strip_www (toLowerCase h) = strip_www (toLowerCase d)
           \<or> suffix (''.'' @ strip_www (toLowerCase d)) (strip_www (toLowerCase h))))
   \<and> (u \<noteq> [] \<and> H u = Some (''www.'' @ h) \<and> toLowerCase h = toLowerCase d \<and> d \<in> set al \<longrightarrow>
      isUrlAllowed H (Some u) (Some al))
   \<and> (u \<noteq> [] \<and> H u = Some h \<and> toLowerCase h = toLowerCase d
        \<and> \<not> prefix ''www.'' (toLowerCase h) \<and> ''www.'' @ d \<in> set al \<longrightarrow>
      isUrlAllowed H (Some u) (Some al))
   \<and> (H u = None \<longrightarrow> \<not> isUrlAllowed H (Some u) (Some al))
   \<and> \<not> isUrlAllowed H url None
   \<and> \<not> isUrlAllowed H url (Some [])
   \<and> \<not> isUrlAllowed H None domains
   \<and> \<not> isUrlAllowed H (Some []) domains"
proof (intro conjI impI)
  show "length (toLowerCase x) = length x" by (simp add: toLowerCase_def)
  show "toLowerCase (x @ y) = toLowerCase x @ toLowerCase y" by (rule toLowerCase_append)
  show "toLowerCase ''ABCDEFGHIJKLMNOPQRSTUVWXYZ'' = ''abcdefghijklmnopqrstuvwxyz''"
    by (rule toLowerCase_alphabet)
  show "strip_www (''www.'' @ x) = x" by (simp add: strip_www_def)
next
  assume "c \<notin> set ''ABCDEFGHIJKLMNOPQRSTUVWXYZ''"
  then show "toLowerCase [c] = [c]" by (rule toLowerCase_fixes_other_chars)
next
  assume "\<not> prefix ''www.'' x"
  then show "strip_www x = x" by (simp add: strip_www_def)
next
  assume "u \<noteq> [] \<and> al \<noteq> [] \<and> H u = Some h"
  then show "isUrlAllowed H (Some u) (Some al) =
        (\<exists>d \<in> set al.
           strip_www (toLowerCase h) = strip_www (toLowerCase d)
           \<or> suffix (''.'' @ strip_www (toLowerCase d)) (strip_www (toLowerCase h)))"
    by (simp add: isUrlAllowed_def list_ex_iff Let_def)
next
  assume a: "u \<noteq> [] \<and> H u = Some (''www.'' @ h) \<and> toLowerCase h = toLowerCase d \<and> d \<in> set al"
  have n: "strip_www (toLowerCase (''www.'' @ h)) = toLowerCase d"
    using a strip_www_lower_www[of h] by metis
  have "toLowerCase d = strip_www (toLowerCase d)
        \<or> suffix (''.'' @ strip_www (toLowerCase d)) (toLowerCase d)"
  proof (cases "prefix ''www.'' (toLowerCase d)")
    case True
    then obtain r where "toLowerCase d = ''www.'' @ r" by (auto simp: prefix_def)
    then show ?thesis by (simp add: strip_www_def suffix_def)
  next
    case False
    then show ?thesis by (simp add: strip_www_def)
  qed
  then have "list_ex (\<lambda>domain. strip_www (toLowerCase (''www.'' @ h)) = strip_www (toLowerCase domain)
      \<or> suffix (''.'' @ strip_www (toLowerCase domain)) (strip_www (toLowerCase (''www.'' @ h)))) al"
    unfolding list_ex_iff n using a by blast
  moreover have "al \<noteq> []" using a by auto
  ultimately show "isUrlAllowed H (Some u) (Some al)"
    using a by (simp add: isUrlAllowed_def Let_def)
next
  assume a: "u \<noteq> [] \<and> H u = Some h \<and> toLowerCase h = toLowerCase d
        \<and> \<not> prefix ''www.'' (toLowerCase h) \<and> ''www.'' @ d \<in> set al"
  have 1: "strip_www (toLowerCase (''www.'' @ d)) = toLowerCase d"
    by (rule strip_www_lower_www)
  from a have "\<not> prefix ''www.'' (toLowerCase h)" by blast
  then have 2: "strip_www (toLowerCase h) = toLowerCase h"
    by (simp add: strip_www_def)
  have "strip_www (toLowerCase h) = strip_www (toLowerCase (''www.'' @ d))"
    unfolding 1 2 using a by blast
  then have "list_ex (\<lambda>domain. strip_www (toLowerCase h) = strip_www (toLowerCase domain)
      \<or> suffix (''.'' @ strip_www (toLowerCase domain)) (strip_www (toLowerCase h))) al"
    unfolding list_ex_iff using a by blast
  moreover have "al \<noteq> []" using a by auto
  ultimately show "isUrlAllowed H (Some u) (Some al)"
    using a by (simp add: isUrlAllowed_def Let_def)
next
  assume "H u = None"
  then show "\<not> isUrlAllowed H (Some u) (Some al)" by (simp add: isUrlAllowed_def)
next
  show "\<not> isUrlAllowed H url None" by (simp add: isUrlAllowed_def split: option.splits)
  show "\<not> isUrlAllowed H url (Some [])" by (simp add: isUrlAllowed_def split: option.splits)
  show "\<not> isUrlAllowed H None domains" by (simp add: isUrlAllowed_def)
  show "\<not> isUrlAllowed H (Some []) domains" by (simp add: isUrlAllowed_def split: option.splits)
qed

theorem isUrlAllowed_normalised_witness:
  "isUrlAllowed (\<lambda>u. Some ''www.Example.com'') (Some ''https://www.Example.com/'')
      (Some [''example.com''])
   \<and> isUrlAllowed (\<lambda>u. Some ''example.com'') (Some ''https://example.com/'')
      (Some [''www.Example.com''])
   \<and> isUrlAllowed (\<lambda>u. Some ''a.EXAMPLE.com'') (Some ''https://a.EXAMPLE.com/'')
      (Some [''www.example.com''])
   \<and> \<not> isUrlAllowed (\<lambda>u. Some ''evil.org'') (Some ''https://evil.org/'')
      (Some [''example.com''])
   \<and> \<not> isUrlAllowed (\<lambda>u. Some ''notexample.com'') (Some ''https://notexample.com/'')
      (Some [''example.com''])
   \<and> \<not> isUrlAllowed (\<lambda>u. Some ''example.com.evil.org'')
      (Some ''https://example.com.evil.org/'') (Some [''example.com'', ''www.Example.org''])
   \<and> \<not> isUrlAllowed plain_hostname (Some ''not a url'') (Some [''example.com''])
   \<and> toLowerCase ''.'' = ''.''
   \<and> strip_www ''w.example.com'' = ''w.example.com''"
proof -
  have l1: "toLowerCase ''Example.com'' = toLowerCase ''example.com''" by code_simp
  have l2: "toLowerCase ''example.com'' = toLowerCase ''Example.com''" by code_simp
  have np: "\<not> prefix ''www.'' (toLowerCase ''example.com'')" by code_simp
  have pn: "plain_hostname ''not a url'' = None" by code_simp
  have m: "\<exists>d \<in> set [''www.example.com''].
           strip_www (toLowerCase ''a.EXAMPLE.com'') = strip_www (toLowerCase d)
           \<or> suffix (''.'' @ strip_www (toLowerCase d)) (strip_www (toLowerCase ''a.EXAMPLE.com''))"
    by code_simp
  have n1: "\<not> (\<exists>d \<in> set [''example.com''].
           strip_www (toLowerCase ''evil.org'') = strip_www (toLowerCase d)
           \<or> suffix (''.'' @ strip_www (toLowerCase d)) (strip_www (toLowerCase ''evil.org'')))"
    by code_simp
  have n2: "\<not> (\<exists>d \<in> set [''example.com''].
           strip_www (toLowerCase ''notexample.com'') = strip_www (toLowerCase d)
           \<or> suffix (''.'' @ strip_www (toLowerCase d))
                (strip_www (toLowerCase ''notexample.com'')))"
    by code_simp
  have n3: "\<not> (\<exists>d \<in> set [''example.com'', ''www.Example.org''].
           strip_www (toLowerCase ''example.com.evil.org'') = strip_www (toLowerCase d)
           \<or> suffix (''.'' @ strip_www (toLowerCase d))
                (strip_www (toLowerCase ''example.com.evil.org'')))"
    by code_simp
  have ne: "''https://www.Example.com/'' \<noteq> []" "''https://example.com/'' \<noteq> []"
    "''https://a.EXAMPLE.com/'' \<noteq> []" "[''www.example.com''] \<noteq> []"
    "''https://evil.org/'' \<noteq> []" "''https://notexample.com/'' \<noteq> []"
    "''https://example.com.evil.org/'' \<noteq> []" "[''example.com''] \<noteq> []"
    "[''example.com'', ''www.Example.org''] \<noteq> []"
    by simp_all
  have mem: "''example.com'' \<in> set [''example.com'']"
    "''www.'' @ ''Example.com'' \<in> set [''www.Example.com'']"
    by simp_all
  have dot: "CHR ''.'' \<notin> set ''ABCDEFGHIJKLMNOPQRSTUVWXYZ''" by simp
  have nw: "\<not> prefix ''www.'' ''w.example.com''" by simp
  have a: "isUrlAllowed (\<lambda>u. Some ''www.Example.com'') (Some ''https://www.Example.com/'')
      (Some [''example.com''])"
    using isUrlAllowed_normalised
      [where H = "\<lambda>u. Some ''www.Example.com''" and u = "''https://www.Example.com/''"
         and h = "''Example.com''" and d = "''example.com''" and al = "[''example.com'']"]
      l1 ne(1) mem(1)
    by simp
  have b: "isUrlAllowed (\<lambda>u. Some ''example.com'') (Some ''https://example.com/'')
      (Some [''www.Example.com''])"
    using isUrlAllowed_normalised
      [where H = "\<lambda>u. Some ''example.com''" and u = "''https://example.com/''"
         and h = "''example.com''" and d = "''Example.com''" and al = "[''www.Example.com'']"]
      l2 np ne(2) mem(2)
    by blast
  have c: "isUrlAllowed (\<lambda>u. Some ''a.EXAMPLE.com'') (Some ''https://a.EXAMPLE.com/'')
      (Some [''www.example.com''])"
    using isUrlAllowed_normalised
      [where H = "\<lambda>u. Some ''a.EXAMPLE.com''" and u = "''https://a.EXAMPLE.com/''"
         and h = "''a.EXAMPLE.com''" and al = "[''www.example.com'']"] m ne(3,4)
    by blast
  have d: "\<not> isUrlAllowed plain_hostname (Some ''not a url'') (Some [''example.com''])"
    using isUrlAllowed_normalised
      [where H = plain_hostname and u = "''not a url''" and al = "[''example.com'']"] pn
    by blast
  have e1: "\<not> isUrlAllowed (\<lambda>u. Some ''evil.org'') (Some ''https://evil.org/'')
      (Some [''example.com''])"
    using isUrlAllowed_normalised
      [where H = "\<lambda>u. Some ''evil.org''" and u = "''https://evil.org/''"
         and h = "''evil.org''" and al = "[''example.com'']"] n1 ne(5,8)
    by blast
  have e2: "\<not> isUrlAllowed (\<lambda>u. Some ''notexample.com'') (Some ''https://notexample.com/'')
      (Some [''example.com''])"
    using isUrlAllowed_normalised
      [where H = "\<lambda>u. Some ''notexample.com''" and u = "''https://notexample.com/''"
         and h = "''notexample.com''" and al = "[''example.com'']"] n2 ne(6,8)
    by blast
  have e3: "\<not> isUrlAllowed (\<lambda>u. Some ''example.com.evil.org'')
      (Some ''https://example.com.evil.org/'') (Some [''example.com'', ''www.Example.org''])"
    using isUrlAllowed_normalised
      [where H = "\<lambda>u. Some ''example.com.evil.org''"
         and u = "''https://example.com.evil.org/''"
         and h = "''example.com.evil.org''" and al = "[''example.com'', ''www.Example.org'']"]
      n3 ne(7,9)
    by blast
  have f: "toLowerCase ''.'' = ''.''"
    using isUrlAllowed_normalised[where c = "CHR ''.''"] dot by blast
  have g: "strip_www ''w.example.com'' = ''w.example.com''"
    using isUrlAllowed_normalised[where x = "''w.example.com''"] nw by blast
  show ?thesis using a b c d e1 e2 e3 f g by blast
qed

section \<open>Tab Accountant: counting\<close>

text \<open>
  Claim C3. When allowlisting is switched off, or the allowlist is empty, the count for a
  window is the number of tabs the browser reports for that window, and the global count
  is the number of all tabs: nothing is excluded.
\<close>

theorem count_is_raw_without_allowlist:
  assumes "\<not> allowlistEnabled s \<or> allowlist s = []"
  shows "getWindowTabCount H w windowId (Some s)
           = length (filter (\<lambda>t. tab_windowId t = windowId) (host_tabs w))
         \<and> getGlobalTabCount H w (Some s) = length (host_tabs w)"
  using assms
  by (auto simp: getWindowTabCount_def getGlobalTabCount_def tabs_query_window_def
      tabs_query_all_def)

theorem count_is_raw_without_allowlist_witness:
  "getWindowTabCount plain_hostname
      (example_world [example_tab 1 1 ''https://example.com/'', example_tab 2 2 ''https://b.org/'',
                      example_tab 3 1 ''https://c.net/'']
         (DEFAULT_SETTINGS\<lparr>allowlist := [''example.com'']\<rparr>)) 1
      (Some (DEFAULT_SETTINGS\<lparr>allowlist := [''example.com'']\<rparr>)) = 2
   \<and> getGlobalTabCount plain_hostname
      (example_world [example_tab 1 1 ''https://example.com/'', example_tab 2 2 ''https://b.org/'',
                      example_tab 3 1 ''https://c.net/'']
         (DEFAULT_SETTINGS\<lparr>allowlist := [''example.com'']\<rparr>))
      (Some (DEFAULT_SETTINGS\<lparr>allowlist := [''example.com'']\<rparr>)) = 3"
  using count_is_raw_without_allowlist
    [of "DEFAULT_SETTINGS\<lparr>allowlist := [''example.com'']\<rparr>" plain_hostname
        "example_world [example_tab 1 1 ''https://example.com/'', example_tab 2 2 ''https://b.org/'',
                      example_tab 3 1 ''https://c.net/'']
         (DEFAULT_SETTINGS\<lparr>allowlist := [''example.com'']\<rparr>)" 1]
  by (simp add: DEFAULT_SETTINGS_def example_world_def example_tab_def)

text \<open>
  Claim C4. A tab whose address has a hostname equal to an allowlist entry, or ending in
  a dot followed by the entry, does not add to the tab count while allowlisting is
  enabled: the count with the tab equals the count without it, for one window
  (\<open>getWindowTabCount\<close>), for all windows (\<open>getGlobalTabCount\<close>) and for the count
  the limiter uses in either mode (\<open>getCurrentTabCount\<close>). With allowlisting toggled
  off and everything else unchanged, the same tab adds one: to the global count always,
  to a window's count when the tab is in that window (and nothing to the count of
  another window).
\<close>

theorem allowlisted_tab_excluded_from_count:
  assumes "tab_url t = Some u" and "u \<noteq> []" and "H u = Some h"
    and "d \<in> set (allowlist s)" and "h = d \<or> suffix (''.'' @ d) h"
  shows "getWindowTabCount H (w\<lparr>host_tabs := xs @ t # ys\<rparr>) windowId
             (Some (s\<lparr>allowlistEnabled := True\<rparr>))
           = getWindowTabCount H (w\<lparr>host_tabs := xs @ ys\<rparr>) windowId
               (Some (s\<lparr>allowlistEnabled := True\<rparr>))
       \<and> getGlobalTabCount H (w\<lparr>host_tabs := xs @ t # ys\<rparr>)
             (Some (s\<lparr>allowlistEnabled := True\<rparr>))
           = getGlobalTabCount H (w\<lparr>host_tabs := xs @ ys\<rparr>)
               (Some (s\<lparr>allowlistEnabled := True\<rparr>))
       \<and> getCurrentTabCount H (w\<lparr>host_tabs := xs @ t # ys\<rparr>) windowId
             (s\<lparr>allowlistEnabled := True\<rparr>)
           = getCurrentTabCount H (w\<lparr>host_tabs := xs @ ys\<rparr>) windowId
               (s\<lparr>allowlistEnabled := True\<rparr>)
       \<and> getGlobalTabCount H (w\<lparr>host_tabs := xs @ t # ys\<rparr>)
             (Some (s\<lparr>allowlistEnabled := False\<rparr>))
           = Suc (getGlobalTabCount H (w\<lparr>host_tabs := xs @ ys\<rparr>)
               (Some (s\<lparr>allowlistEnabled := False\<rparr>)))
       \<and> (globalLimit s \<longrightarrow>
            getCurrentTabCount H (w\<lparr>host_tabs := xs @ t # ys\<rparr>) windowId
                (s\<lparr>allowlistEnabled := False\<rparr>)
              = Suc (getCurrentTabCount H (w\<lparr>host_tabs := xs @ ys\<rparr>) windowId
                  (s\<lparr>allowlistEnabled := False\<rparr>)))
       \<and> (tab_windowId t = windowId \<longrightarrow>
            getWindowTabCount H (w\<lparr>host_tabs := xs @ t # ys\<rparr>) windowId
                (Some (s\<lparr>allowlistEnabled := False\<rparr>))
              = Suc (getWindowTabCount H (w\<lparr>host_tabs := xs @ ys\<rparr>) windowId
                  (Some (s\<lparr>allowlistEnabled := False\<rparr>)))
            \<and> getCurrentTabCount H (w\<lparr>host_tabs := xs @ t # ys\<rparr>) windowId
                (s\<lparr>allowlistEnabled := False\<rparr>)
              = Suc (getCurrentTabCount H (w\<lparr>host_tabs := xs @ ys\<rparr>) windowId
                  (s\<lparr>allowlistEnabled := False\<rparr>)))
       \<and> (tab_windowId t \<noteq> windowId \<longrightarrow>
            getWindowTabCount H (w\<lparr>host_tabs := xs @ t # ys\<rparr>) windowId
                (Some (s\<lparr>allowlistEnabled := False\<rparr>))
              = getWindowTabCount H (w\<lparr>host_tabs := xs @ ys\<rparr>) windowId
                  (Some (s\<lparr>allowlistEnabled := False\<rparr>))
            \<and> (\<not> globalLimit s \<longrightarrow>
                 getCurrentTabCount H (w\<lparr>host_tabs := xs @ t # ys\<rparr>) windowId
                     (s\<lparr>allowlistEnabled := False\<rparr>)
                   = getCurrentTabCount H (w\<lparr>host_tabs := xs @ ys\<rparr>) windowId
                       (s\<lparr>allowlistEnabled := False\<rparr>)))"
proof -
  have al: "isUrlAllowed H (tab_url t) (Some (allowlist s))"
    using isUrlAllowed_match[where H = H and u = u and h = h and d = d and al = "allowlist s"]
      assms(1-5) by simp
  have ne: "allowlist s \<noteq> []" using assms(4) by auto
  have w_on: "getWindowTabCount H (w\<lparr>host_tabs := xs @ t # ys\<rparr>) windowId
             (Some (s\<lparr>allowlistEnabled := True\<rparr>))
           = getWindowTabCount H (w\<lparr>host_tabs := xs @ ys\<rparr>) windowId
               (Some (s\<lparr>allowlistEnabled := True\<rparr>))"
    using al ne by (simp add: getWindowTabCount_def tabs_query_window_def)
  have g_on: "getGlobalTabCount H (w\<lparr>host_tabs := xs @ t # ys\<rparr>)
             (Some (s\<lparr>allowlistEnabled := True\<rparr>))
           = getGlobalTabCount H (w\<lparr>host_tabs := xs @ ys\<rparr>)
               (Some (s\<lparr>allowlistEnabled := True\<rparr>))"
    using al ne by (simp add: getGlobalTabCount_def tabs_query_all_def)
  have g_off: "getGlobalTabCount H (w\<lparr>host_tabs := xs @ t # ys\<rparr>)
             (Some (s\<lparr>allowlistEnabled := False\<rparr>))
           = Suc (getGlobalTabCount H (w\<lparr>host_tabs := xs @ ys\<rparr>)
               (Some (s\<lparr>allowlistEnabled := False\<rparr>)))"
    by (simp add: getGlobalTabCount_def tabs_query_all_def)
  have w_off: "tab_windowId t = windowId \<Longrightarrow>
            getWindowTabCount H (w\<lparr>host_tabs := xs @ t # ys\<rparr>) windowId
                (Some (s\<lparr>allowlistEnabled := False\<rparr>))
              = Suc (getWindowTabCount H (w\<lparr>host_tabs := xs @ ys\<rparr>) windowId
                  (Some (s\<lparr>allowlistEnabled := False\<rparr>)))"
    by (simp add: getWindowTabCount_def tabs_query_window_def)
  have c_on: "getCurrentTabCount H (w\<lparr>host_tabs := xs @ t # ys\<rparr>) windowId
             (s\<lparr>allowlistEnabled := True\<rparr>)
           = getCurrentTabCount H (w\<lparr>host_tabs := xs @ ys\<rparr>) windowId
               (s\<lparr>allowlistEnabled := True\<rparr>)"
    using w_on g_on by (simp add: getCurrentTabCount_def)
  have c_off_g: "globalLimit s \<Longrightarrow>
            getCurrentTabCount H (w\<lparr>host_tabs := xs @ t # ys\<rparr>) windowId
                (s\<lparr>allowlistEnabled := False\<rparr>)
              = Suc (getCurrentTabCount H (w\<lparr>host_tabs := xs @ ys\<rparr>) windowId
                  (s\<lparr>allowlistEnabled := False\<rparr>))"
    using g_off by (simp add: getCurrentTabCount_def)
  have c_off_w: "tab_windowId t = windowId \<Longrightarrow>
            getCurrentTabCount H (w\<lparr>host_tabs := xs @ t # ys\<rparr>) windowId
                (s\<lparr>allowlistEnabled := False\<rparr>)
              = Suc (getCurrentTabCount H (w\<lparr>host_tabs := xs @ ys\<rparr>) windowId
                  (s\<lparr>allowlistEnabled := False\<rparr>))"
    using g_off w_off by (simp add: getCurrentTabCount_def)
  have w_other: "tab_windowId t \<noteq> windowId \<Longrightarrow>
            getWindowTabCount H (w\<lparr>host_tabs := xs @ t # ys\<rparr>) windowId
                (Some (s\<lparr>allowlistEnabled := False\<rparr>))
              = getWindowTabCount H (w\<lparr>host_tabs := xs @ ys\<rparr>) windowId
                  (Some (s\<lparr>allowlistEnabled := False\<rparr>))"
    by (simp add: getWindowTabCount_def tabs_query_window_def)
  have c_other: "tab_windowId t \<noteq> windowId \<Longrightarrow> \<not> globalLimit s \<Longrightarrow>
                 getCurrentTabCount H (w\<lparr>host_tabs := xs @ t # ys\<rparr>) windowId
                     (s\<lparr>allowlistEnabled := False\<rparr>)
                   = getCurrentTabCount H (w\<lparr>host_tabs := xs @ ys\<rparr>) windowId
                       (s\<lparr>allowlistEnabled := False\<rparr>)"
    using w_other by (simp add: getCurrentTabCount_def)
  show ?thesis
    using w_on g_on c_on g_off c_off_g w_off c_off_w w_other c_other by blast
qed

theorem allowlisted_tab_excluded_from_count_witness:
  "getWindowTabCount plain_hostname
      (example_world [example_tab 1 1 ''https://b.org/'',
                      example_tab 2 1 ''https://mail.example.com/inbox''] DEFAULT_SETTINGS) 1
      (Some (DEFAULT_SETTINGS\<lparr>allowlist := [''example.com''], allowlistEnabled := True\<rparr>)) = 1
   \<and> getWindowTabCount plain_hostname
      (example_world [example_tab 1 1 ''https://b.org/'',
                      example_tab 2 1 ''https://mail.example.com/inbox''] DEFAULT_SETTINGS) 1
      (Some (DEFAULT_SETTINGS\<lparr>allowlist := [''example.com''], allowlistEnabled := False\<rparr>)) = 2
   \<and> getGlobalTabCount plain_hostname
      (example_world [example_tab 1 1 ''https://b.org/'',
                      example_tab 2 1 ''https://mail.example.com/inbox''] DEFAULT_SETTINGS)
      (Some (DEFAULT_SETTINGS\<lparr>allowlist := [''example.com''], allowlistEnabled := True\<rparr>)) = 1
   \<and> getGlobalTabCount plain_hostname
      (example_world [example_tab 1 1 ''https://b.org/'',
                      example_tab 2 1 ''https://mail.example.com/inbox''] DEFAULT_SETTINGS)
      (Some (DEFAULT_SETTINGS\<lparr>allowlist := [''example.com''], allowlistEnabled := False\<rparr>)) = 2
   \<and> getCurrentTabCount plain_hostname
      (example_world [example_tab 1 1 ''https://b.org/'',
                      example_tab 2 1 ''https://mail.example.com/inbox''] DEFAULT_SETTINGS) 7
      (DEFAULT_SETTINGS\<lparr>globalLimit := True, allowlist := [''example.com''],
                         allowlistEnabled := True\<rparr>) = 1
   \<and> getCurrentTabCount plain_hostname
      (example_world [example_tab 1 1 ''https://b.org/'',
                      example_tab 2 1 ''https://mail.example.com/inbox''] DEFAULT_SETTINGS) 7
      (DEFAULT_SETTINGS\<lparr>globalLimit := True, allowlist := [''example.com''],
                         allowlistEnabled := False\<rparr>) = 2"
proof -
  have u: "tab_url (example_tab 2 1 ''https://mail.example.com/inbox'')
             = Some ''https://mail.example.com/inbox''"
    by (simp add: example_tab_def)
  have ne: "''https://mail.example.com/inbox'' \<noteq> []" by simp
  have h: "plain_hostname ''https://mail.example.com/inbox'' = Some ''mail.example.com''"
    by code_simp
  have d: "''example.com'' \<in> set (allowlist (DEFAULT_SETTINGS\<lparr>allowlist := [''example.com'']\<rparr>))"
    "''example.com''
       \<in> set (allowlist (DEFAULT_SETTINGS\<lparr>globalLimit := True, allowlist := [''example.com'']\<rparr>))"
    by simp_all
  have m: "''mail.example.com'' = ''example.com''
           \<or> suffix (''.'' @ ''example.com'') ''mail.example.com''"
    by (simp add: suffix_to_prefix)
  have wd: "tab_windowId (example_tab 2 1 ''https://mail.example.com/inbox'') = 1"
    by (simp add: example_tab_def)
  have a1: "\<not> isUrlAllowed plain_hostname (Some ''https://b.org/'') (Some [''example.com''])"
    by code_simp
  note W = allowlisted_tab_excluded_from_count
      [where H = plain_hostname and t = "example_tab 2 1 ''https://mail.example.com/inbox''"
         and u = "''https://mail.example.com/inbox''" and h = "''mail.example.com''"
         and d = "''example.com''" and s = "DEFAULT_SETTINGS\<lparr>allowlist := [''example.com'']\<rparr>"
         and windowId = 1 and w = "example_world [] DEFAULT_SETTINGS"
         and xs = "[example_tab 1 1 ''https://b.org/'']" and ys = "[]", OF u ne h d(1) m]
  note G = allowlisted_tab_excluded_from_count
      [where H = plain_hostname and t = "example_tab 2 1 ''https://mail.example.com/inbox''"
         and u = "''https://mail.example.com/inbox''" and h = "''mail.example.com''"
         and d = "''example.com''"
         and s = "DEFAULT_SETTINGS\<lparr>globalLimit := True, allowlist := [''example.com'']\<rparr>"
         and windowId = 7 and w = "example_world [] DEFAULT_SETTINGS"
         and xs = "[example_tab 1 1 ''https://b.org/'']" and ys = "[]", OF u ne h d(2) m]
  have base: "getWindowTabCount plain_hostname
        ((example_world [] DEFAULT_SETTINGS)\<lparr>host_tabs := [example_tab 1 1 ''https://b.org/''] @ []\<rparr>) 1
        (Some (DEFAULT_SETTINGS\<lparr>allowlist := [''example.com''], allowlistEnabled := True\<rparr>)) = 1"
    "getWindowTabCount plain_hostname
        ((example_world [] DEFAULT_SETTINGS)\<lparr>host_tabs := [example_tab 1 1 ''https://b.org/''] @ []\<rparr>) 1
        (Some (DEFAULT_SETTINGS\<lparr>allowlist := [''example.com''], allowlistEnabled := False\<rparr>)) = 1"
    "getGlobalTabCount plain_hostname
        ((example_world [] DEFAULT_SETTINGS)\<lparr>host_tabs := [example_tab 1 1 ''https://b.org/''] @ []\<rparr>)
        (Some (DEFAULT_SETTINGS\<lparr>allowlist := [''example.com''], allowlistEnabled := True\<rparr>)) = 1"
    "getGlobalTabCount plain_hostname
        ((example_world [] DEFAULT_SETTINGS)\<lparr>host_tabs := [example_tab 1 1 ''https://b.org/''] @ []\<rparr>)
        (Some (DEFAULT_SETTINGS\<lparr>allowlist := [''example.com''], allowlistEnabled := False\<rparr>)) = 1"
    "getCurrentTabCount plain_hostname
        ((example_world [] DEFAULT_SETTINGS)\<lparr>host_tabs := [example_tab 1 1 ''https://b.org/''] @ []\<rparr>) 7
        (DEFAULT_SETTINGS\<lparr>globalLimit := True, allowlist := [''example.com''],
                           allowlistEnabled := True\<rparr>) = 1"
    "getCurrentTabCount plain_hostname
        ((example_world [] DEFAULT_SETTINGS)\<lparr>host_tabs := [example_tab 1 1 ''https://b.org/''] @ []\<rparr>) 7
        (DEFAULT_SETTINGS\<lparr>globalLimit := True, allowlist := [''example.com''],
                           allowlistEnabled := False\<rparr>) = 1"
    using a1
    by (simp_all add: getWindowTabCount_def getGlobalTabCount_def getCurrentTabCount_def
        tabs_query_window_def tabs_query_all_def example_world_def example_tab_def
        DEFAULT_SETTINGS_def)
  have gl: "globalLimit (DEFAULT_SETTINGS\<lparr>globalLimit := True, allowlist := [''example.com'']\<rparr>)"
    by simp
  show ?thesis
    using W G wd gl base
    by (simp add: example_world_def)
qed

section \<open>Stats store\<close>

lemma updateStreak_keeps_counters:
  "blockedToday (updateStreak clk st) = blockedToday st"
  "blockedWeek (updateStreak clk st) = blockedWeek st"
  "blockedTotal (updateStreak clk st) = blockedTotal st"
  "lastBlockDate (updateStreak clk st) = lastBlockDate st"
  "weekStartDate (updateStreak clk st) = weekStartDate st"
  "inactiveClosed (updateStreak clk st) = inactiveClosed st"
  by (simp_all add: updateStreak_def Let_def)

text \<open>
  Claim C8. Let \<open>st\<close> be the stored stats (the defaults when nothing was stored yet).
  A successful read of the stats store returns \<open>blockedToday\<close> as 0 when the
  stored \<open>lastBlockDate\<close> is not today (and unchanged when it is), and returns
  \<open>blockedWeek\<close> as 0 with \<open>weekStartDate\<close> set to the current week start when the
  stored \<open>weekStartDate\<close> differs from it (and both unchanged when it matches). The
  total is never touched by a read.
\<close>

theorem getStats_resets_stale_counters:
  assumes "storage_ok w"
    and "st = (case statsStore w of None \<Rightarrow> DEFAULT_STATS | Some x \<Rightarrow> x)"
  shows "(lastBlockDate st \<noteq> Some (date_today clk) \<longrightarrow> blockedToday (getStats clk w) = 0)
       \<and> (lastBlockDate st = Some (date_today clk) \<longrightarrow>
            blockedToday (getStats clk w) = blockedToday st)
       \<and> (weekStartDate st \<noteq> Some (getWeekStart clk) \<longrightarrow>
            blockedWeek (getStats clk w) = 0
            \<and> weekStartDate (getStats clk w) = Some (getWeekStart clk))
       \<and> (weekStartDate st = Some (getWeekStart clk) \<longrightarrow>
            blockedWeek (getStats clk w) = blockedWeek st
            \<and> weekStartDate (getStats clk w) = weekStartDate st)
       \<and> blockedTotal (getStats clk w) = blockedTotal st"
  using assms by (simp add: getStats_def Let_def updateStreak_keeps_counters)

theorem getStats_resets_stale_counters_witness:
  "blockedToday (getStats example_clock
       ((example_world [] DEFAULT_SETTINGS)\<lparr>statsStore := Some example_stats\<rparr>)) = 0
   \<and> blockedWeek (getStats example_clock
       ((example_world [] DEFAULT_SETTINGS)\<lparr>statsStore := Some example_stats\<rparr>)) = 9
   \<and> blockedToday (getStats example_clock
       ((example_world [] DEFAULT_SETTINGS)
          \<lparr>statsStore := Some (example_stats\<lparr>lastBlockDate := Some ''Mon Nov 02 2026'',
                                 weekStartDate := Some ''Sun Oct 25 2026''\<rparr>)\<rparr>)) = 5
   \<and> blockedWeek (getStats example_clock
       ((example_world [] DEFAULT_SETTINGS)
          \<lparr>statsStore := Some (example_stats\<lparr>lastBlockDate := Some ''Mon Nov 02 2026'',
                                 weekStartDate := Some ''Sun Oct 25 2026''\<rparr>)\<rparr>)) = 0"
proof -
  have s: "storage_ok ((example_world [] DEFAULT_SETTINGS)\<lparr>statsStore := Some example_stats\<rparr>)"
    "storage_ok ((example_world [] DEFAULT_SETTINGS)
          \<lparr>statsStore := Some (example_stats\<lparr>lastBlockDate := Some ''Mon Nov 02 2026'',
                                 weekStartDate := Some ''Sun Oct 25 2026''\<rparr>)\<rparr>)"
    by (simp_all add: example_world_def)
  have d: "lastBlockDate example_stats \<noteq> Some (date_today example_clock)"
    "weekStartDate example_stats = Some (getWeekStart example_clock)"
    "blockedWeek example_stats = 9" "blockedToday example_stats = 5"
    by (simp_all add: example_stats_def example_clock_def)
  have e: "Some ''Mon Nov 02 2026'' = Some (date_today example_clock)"
    "Some ''Sun Oct 25 2026'' \<noteq> Some (getWeekStart example_clock)"
    by (simp_all add: example_clock_def)
  show ?thesis
    using getStats_resets_stale_counters
        [OF s(1), of example_stats example_clock]
      getStats_resets_stale_counters
        [OF s(2), of "example_stats\<lparr>lastBlockDate := Some ''Mon Nov 02 2026'',
                                 weekStartDate := Some ''Sun Oct 25 2026''\<rparr>" example_clock]
      d e
    by simp
qed

section \<open>Enforcement policy: closing and counting a blocked tab\<close>

lemma closeTab_host_tabs:
  "host_tabs (closeTab clk i w) = filter (\<lambda>x. tab_id x \<noteq> i) (host_tabs w)"
proof (cases "list_ex (\<lambda>t. tab_id t = i) (host_tabs w)")
  case True
  then show ?thesis
    by (simp add: closeTab_def tabs_remove_def incrementBlocked_def saveStats_def Let_def)
next
  case False
  then have "filter (\<lambda>x. tab_id x \<noteq> i) (host_tabs w) = host_tabs w"
    by (simp add: list_ex_iff filter_id_conv)
  with False show ?thesis
    by (simp add: closeTab_def tabs_remove_def Let_def)
qed

lemma getStats_cong:
  "storage_ok w' = storage_ok w \<Longrightarrow> statsStore w' = statsStore w \<Longrightarrow>
   getStats clk w' = getStats clk w"
  by (simp add: getStats_def)

lemma closeTab_statsStore:
  assumes "storage_ok w" and "list_ex (\<lambda>t. tab_id t = i) (host_tabs w)"
  shows "statsStore (closeTab clk i w) =
           Some (updateStreak clk
             ((getStats clk w)\<lparr>blockedToday := blockedToday (getStats clk w) + 1,
                                blockedWeek := blockedWeek (getStats clk w) + 1,
                                blockedTotal := blockedTotal (getStats clk w) + 1,
                                lastBlockDate := Some (date_today clk)\<rparr>))"
  using assms
  by (simp add: closeTab_def tabs_remove_def incrementBlocked_def saveStats_def Let_def
      getStats_def)

lemma getStats_blockedTotal:
  "storage_ok w \<Longrightarrow>
   blockedTotal (getStats clk w) =
     blockedTotal (case statsStore w of None \<Rightarrow> DEFAULT_STATS | Some x \<Rightarrow> x)"
  by (simp add: getStats_def Let_def updateStreak_keeps_counters)

lemma filter_id_distinct:
  assumes "distinct (map tab_id xs)" and "t \<in> set xs"
  shows "length (filter P (filter (\<lambda>x. tab_id x \<noteq> tab_id t) xs))
           = length (filter P xs) - (if P t then 1 else 0)"
  using assms
proof (induction xs)
  case Nil then show ?case by simp
next
  case (Cons a xs)
  show ?case
  proof (cases "a = t")
    case True
    then have "tab_id t \<notin> set (map tab_id xs)" using Cons.prems by simp
    then have "\<forall>x\<in>set xs. tab_id x \<noteq> tab_id t" by (metis image_eqI list.set_map)
    then have "filter (\<lambda>x. tab_id x \<noteq> tab_id t) xs = xs" by (simp add: filter_id_conv)
    then show ?thesis using True by simp
  next
    case False
    then have "t \<in> set xs" "tab_id a \<noteq> tab_id t" using Cons.prems by auto
    moreover have "P t \<Longrightarrow> length (filter P xs) > 0"
      using \<open>t \<in> set xs\<close> by (auto simp: filter_empty_conv)
    ultimately show ?thesis using Cons by auto
  qed
qed

text \<open>
  Claim C7. With the limiter enabled, limit 3, per-window counting and allowlisting
  disabled, creating a fourth tab in a window (a tab not just restored from the corral)
  closes exactly that tab, leaving three in the window, and stores stats whose
  \<open>blockedToday\<close>, \<open>blockedWeek\<close> and \<open>blockedTotal\<close> are one more than a read of
  the stats store returned before the event, with \<open>lastBlockDate\<close> set to today. For
  \<open>blockedTotal\<close> that is one more than the stored value.
\<close>

theorem fourth_tab_closed_and_counted:
  assumes "storage_ok w" and "settingsStore w = Some s" and "enabled s" and "maxTabs s = 3"
    and "\<not> allowlistEnabled s" and "\<not> globalLimit s"
    and "tab_id t \<notin> corralRestoredTabs w"
    and "t \<in> set (host_tabs w)" and "distinct (map tab_id (host_tabs w))"
    and "length (filter (\<lambda>x. tab_windowId x = tab_windowId t) (host_tabs w)) = 4"
  shows "host_tabs (handleTabCreated H clk t w)
           = filter (\<lambda>x. tab_id x \<noteq> tab_id t) (host_tabs w)
       \<and> t \<notin> set (host_tabs (handleTabCreated H clk t w))
       \<and> length (filter (\<lambda>x. tab_windowId x = tab_windowId t)
            (host_tabs (handleTabCreated H clk t w))) = 3
       \<and> (\<exists>st. statsStore (handleTabCreated H clk t w) = Some st
            \<and> blockedToday st = blockedToday (getStats clk w) + 1
            \<and> blockedWeek st = blockedWeek (getStats clk w) + 1
            \<and> blockedTotal st = blockedTotal (getStats clk w) + 1
            \<and> blockedTotal st
                = blockedTotal (case statsStore w of None \<Rightarrow> DEFAULT_STATS | Some x \<Rightarrow> x) + 1
            \<and> lastBlockDate st = Some (date_today clk))"
proof -
  have gs: "getSettings w = s" using assms(1,2) by (simp add: getSettings_def)
  have cnt: "getCurrentTabCount H w (tab_windowId t) s = 4"
    using assms(5,6,10)
    by (simp add: getCurrentTabCount_def getWindowTabCount_def tabs_query_window_def)
  have h: "handleTabCreated H clk t w = closeTab clk (tab_id t) w"
    using assms(3,4,5,7) cnt by (simp add: handleTabCreated_def gs Let_def)
  have ex: "list_ex (\<lambda>x. tab_id x = tab_id t) (host_tabs w)"
    using assms(8) by (auto simp: list_ex_iff)
  have 1: "host_tabs (handleTabCreated H clk t w)
           = filter (\<lambda>x. tab_id x \<noteq> tab_id t) (host_tabs w)"
    by (simp add: h closeTab_host_tabs)
  have 2: "t \<notin> set (host_tabs (handleTabCreated H clk t w))" by (simp add: 1)
  have 3: "length (filter (\<lambda>x. tab_windowId x = tab_windowId t)
            (host_tabs (handleTabCreated H clk t w))) = 3"
    unfolding 1 using filter_id_distinct[OF assms(9,8), of "\<lambda>x. tab_windowId x = tab_windowId t"]
      assms(10) by simp
  have 4: "\<exists>st. statsStore (handleTabCreated H clk t w) = Some st
            \<and> blockedToday st = blockedToday (getStats clk w) + 1
            \<and> blockedWeek st = blockedWeek (getStats clk w) + 1
            \<and> blockedTotal st = blockedTotal (getStats clk w) + 1
            \<and> blockedTotal st
                = blockedTotal (case statsStore w of None \<Rightarrow> DEFAULT_STATS | Some x \<Rightarrow> x) + 1
            \<and> lastBlockDate st = Some (date_today clk)"
    unfolding h closeTab_statsStore[OF assms(1) ex]
    by (simp add: updateStreak_keeps_counters getStats_blockedTotal[OF assms(1)])
  show ?thesis using 1 2 3 4 by blast
qed

theorem fourth_tab_closed_and_counted_witness:
  "map tab_id (host_tabs (handleTabCreated plain_hostname example_clock
       (example_tab 4 1 ''https://d.io/'') four_tab_world)) = [1, 2, 3]
   \<and> (\<exists>st. statsStore (handleTabCreated plain_hostname example_clock
               (example_tab 4 1 ''https://d.io/'') four_tab_world) = Some st
         \<and> blockedToday st = 1 \<and> blockedWeek st = 10 \<and> blockedTotal st = 41
         \<and> lastBlockDate st = Some ''Mon Nov 02 2026'')"
proof -
  have g: "blockedToday (getStats example_clock four_tab_world) = 0"
    "blockedWeek (getStats example_clock four_tab_world) = 9"
    "blockedTotal (getStats example_clock four_tab_world) = 40"
    by (simp_all add: getStats_def four_tab_world_def example_world_def example_stats_def
        example_clock_def Let_def updateStreak_keeps_counters)
  have T: "host_tabs (handleTabCreated plain_hostname example_clock
              (example_tab 4 1 ''https://d.io/'') four_tab_world)
           = filter (\<lambda>x. tab_id x \<noteq> tab_id (example_tab 4 1 ''https://d.io/''))
               (host_tabs four_tab_world)
       \<and> example_tab 4 1 ''https://d.io/'' \<notin> set (host_tabs (handleTabCreated plain_hostname
              example_clock (example_tab 4 1 ''https://d.io/'') four_tab_world))
       \<and> length (filter (\<lambda>x. tab_windowId x = tab_windowId (example_tab 4 1 ''https://d.io/''))
            (host_tabs (handleTabCreated plain_hostname example_clock
               (example_tab 4 1 ''https://d.io/'') four_tab_world))) = 3
       \<and> (\<exists>st. statsStore (handleTabCreated plain_hostname example_clock
                   (example_tab 4 1 ''https://d.io/'') four_tab_world) = Some st
            \<and> blockedToday st = blockedToday (getStats example_clock four_tab_world) + 1
            \<and> blockedWeek st = blockedWeek (getStats example_clock four_tab_world) + 1
            \<and> blockedTotal st = blockedTotal (getStats example_clock four_tab_world) + 1
            \<and> blockedTotal st
                = blockedTotal (case statsStore four_tab_world of
                                  None \<Rightarrow> DEFAULT_STATS | Some x \<Rightarrow> x) + 1
            \<and> lastBlockDate st = Some (date_today example_clock))"
    by (rule fourth_tab_closed_and_counted[where s = DEFAULT_SETTINGS])
       (simp_all add: four_tab_world_def example_world_def example_tab_def DEFAULT_SETTINGS_def
          MAX_TABS_def)
  have f: "map tab_id (filter (\<lambda>x. tab_id x \<noteq> tab_id (example_tab 4 1 ''https://d.io/''))
               (host_tabs four_tab_world)) = [1, 2, 3]"
    by (simp add: four_tab_world_def example_world_def example_tab_def)
  have d: "date_today example_clock = ''Mon Nov 02 2026''" by (simp add: example_clock_def)
  from T have "host_tabs (handleTabCreated plain_hostname example_clock
              (example_tab 4 1 ''https://d.io/'') four_tab_world)
           = filter (\<lambda>x. tab_id x \<noteq> tab_id (example_tab 4 1 ''https://d.io/''))
               (host_tabs four_tab_world)" by blast
  then have 1: "map tab_id (host_tabs (handleTabCreated plain_hostname example_clock
       (example_tab 4 1 ''https://d.io/'') four_tab_world)) = [1, 2, 3]"
    using f by simp
  from T obtain st where "statsStore (handleTabCreated plain_hostname example_clock
                   (example_tab 4 1 ''https://d.io/'') four_tab_world) = Some st"
     "blockedToday st = blockedToday (getStats example_clock four_tab_world) + 1"
     "blockedWeek st = blockedWeek (getStats example_clock four_tab_world) + 1"
     "blockedTotal st = blockedTotal (getStats example_clock four_tab_world) + 1"
     "lastBlockDate st = Some (date_today example_clock)" by blast
  then have 2: "\<exists>st. statsStore (handleTabCreated plain_hostname example_clock
               (example_tab 4 1 ''https://d.io/'') four_tab_world) = Some st
         \<and> blockedToday st = 1 \<and> blockedWeek st = 10 \<and> blockedTotal st = 41
         \<and> lastBlockDate st = Some ''Mon Nov 02 2026''"
    using g d by simp
  show ?thesis using 1 2 by blast
qed

section \<open>Corral\<close>

lemma nth_remove_at:
  "i < length xs \<Longrightarrow>
   (take i xs @ drop (Suc i) xs) ! j = (if j < i then xs ! j else xs ! Suc j)"
  by (simp add: nth_append min_def)

text \<open>
  Claim C10. For an index that is negative or at least the corral length,
  \<open>restoreFromCorral\<close> returns false and leaves the whole state as it was: no corral
  is written and no tab is opened. For an index in range (storage working, the browser
  accepting the new tab) it returns true, the stored corral is the old one without the
  entry at that index, every other entry keeps its relative place, and one tab is opened.
\<close>

theorem restoreFromCorral_index_check:
  "(index < 0 \<or> index \<ge> int (length (getCorral w)) \<longrightarrow>
      restoreFromCorral create clk index w = (False, w))
   \<and> (storage_ok w \<and> 0 \<le> index \<and> index < int (length (getCorral w))
        \<and> create (c_url (getCorral w ! nat index)) = Some newTab \<longrightarrow>
      fst (restoreFromCorral create clk index w) = True
      \<and> getCorral (snd (restoreFromCorral create clk index w))
          = take (nat index) (getCorral w) @ drop (Suc (nat index)) (getCorral w)
      \<and> length (getCorral (snd (restoreFromCorral create clk index w)))
          = length (getCorral w) - 1
      \<and> (\<forall>j < nat index. getCorral (snd (restoreFromCorral create clk index w)) ! j
             = getCorral w ! j)
      \<and> (\<forall>j. nat index \<le> j \<and> Suc j < length (getCorral w) \<longrightarrow>
             getCorral (snd (restoreFromCorral create clk index w)) ! j
               = getCorral w ! Suc j)
      \<and> host_tabs (snd (restoreFromCorral create clk index w)) = host_tabs w @ [newTab])"
proof (intro conjI impI)
  assume "index < 0 \<or> index \<ge> int (length (getCorral w))"
  then show "restoreFromCorral create clk index w = (False, w)"
    by (auto simp: restoreFromCorral_def getCorral_def Let_def)
next
  assume a: "storage_ok w \<and> 0 \<le> index \<and> index < int (length (getCorral w))
        \<and> create (c_url (getCorral w ! nat index)) = Some newTab"
  let ?c = "getCorral w"
  let ?r = "restoreFromCorral create clk index w"
  have c: "?c = (case tabCorral w of None \<Rightarrow> [] | Some c \<Rightarrow> c)"
    using a by (simp add: getCorral_def)
  have i: "nat index < length ?c" using a by linarith
  have r: "?r = (True,
                  w\<lparr>tabCorral := Some (take (nat index) ?c @ drop (Suc (nat index)) ?c),
                    host_tabs := host_tabs w @ [newTab],
                    corralRestoredTabs := insert (tab_id newTab) (corralRestoredTabs w),
                    timers := timers w @
                       [(date_now clk + 5000, UnexemptRestored (tab_id newTab))]\<rparr>)"
    using a unfolding restoreFromCorral_def Let_def c[symmetric] by auto
  show "fst ?r = True" by (simp add: r)
  show g: "getCorral (snd ?r) = take (nat index) ?c @ drop (Suc (nat index)) ?c"
    using a by (simp add: r getCorral_def[of "_\<lparr>tabCorral := _\<rparr>"] getCorral_def)
  show "length (getCorral (snd ?r)) = length ?c - 1"
    unfolding g using i by simp
  show "\<forall>j < nat index. getCorral (snd ?r) ! j = ?c ! j"
    unfolding g using i by (simp add: nth_remove_at)
  show "\<forall>j. nat index \<le> j \<and> Suc j < length ?c \<longrightarrow> getCorral (snd ?r) ! j = ?c ! Suc j"
    unfolding g using i by (simp add: nth_remove_at)
  show "host_tabs (snd ?r) = host_tabs w @ [newTab]" by (simp add: r)
qed

theorem restoreFromCorral_index_check_witness:
  "restoreFromCorral example_create example_clock 3 corral_world = (False, corral_world)
   \<and> restoreFromCorral example_create example_clock (- 1) corral_world = (False, corral_world)
   \<and> fst (restoreFromCorral example_create example_clock 1 corral_world) = True
   \<and> getCorral (snd (restoreFromCorral example_create example_clock 1 corral_world))
       = [example_entry ''https://x.com/'' 300, example_entry ''https://y.com/'' 100]"
proof -
  have c: "getCorral corral_world = [example_entry ''https://x.com/'' 300,
                            example_entry ''https://a.com'' 200,
                            example_entry ''https://y.com/'' 100]"
    by (simp add: getCorral_def corral_world_def example_world_def)
  have ok: "storage_ok corral_world" by (simp add: corral_world_def example_world_def)
  have cr: "example_create (c_url (getCorral corral_world ! nat 1))
              = Some (example_tab 9 1 ''https://a.com'')"
    unfolding c by (simp add: example_create_def example_entry_def isRealUrl_def)
  have a: "restoreFromCorral example_create example_clock 3 corral_world = (False, corral_world)"
    using restoreFromCorral_index_check
      [where index = 3 and w = corral_world and create = example_create and clk = example_clock]
      c by simp
  have b: "restoreFromCorral example_create example_clock (- 1) corral_world
             = (False, corral_world)"
    using restoreFromCorral_index_check
      [where index = "- 1" and w = corral_world and create = example_create
         and clk = example_clock]
    by simp
  have d: "fst (restoreFromCorral example_create example_clock 1 corral_world) = True
     \<and> getCorral (snd (restoreFromCorral example_create example_clock 1 corral_world))
          = take (nat 1) (getCorral corral_world) @ drop (Suc (nat 1)) (getCorral corral_world)"
    using restoreFromCorral_index_check
      [where index = 1 and w = corral_world and create = example_create
         and clk = example_clock and newTab = "example_tab 9 1 ''https://a.com''"]
      ok cr c by simp
  show ?thesis using a b d unfolding c by simp
qed

lemma remove_first_filter_length:
  "length (filter p (remove_first p xs)) = length (filter p xs) - 1"
  by (induction xs) auto

lemma filter_take_empty: "filter p xs = [] \<Longrightarrow> filter p (take n xs) = []"
  by (induction xs arbitrary: n) (auto simp: take_Cons split: nat.splits if_splits)

lemma new_corral_entry_url: "tab_url t = Some u \<Longrightarrow> c_url (new_corral_entry clk t) = u"
  by (simp add: new_corral_entry_def or_default_def falsy_def)

lemma addToCorral_other_fields:
  "host_tabs (addToCorral H clk tabs w) = host_tabs w"
  "storage_ok (addToCorral H clk tabs w) = storage_ok w"
  "statsStore (addToCorral H clk tabs w) = statsStore w"
  by (simp_all add: addToCorral_def Let_def)

lemma addToCorral_tabCorral:
  assumes "storage_ok w" and "0 < corralMax (getSettings w)"
  shows "tabCorral (addToCorral H clk tabs w) =
           Some (take (nat (corralMax (getSettings w)))
             (foldl (corral_step H clk
                       (if wrangleOption (getSettings w) = [] then ''exactURLMatch''
                        else wrangleOption (getSettings w)))
                    (case tabCorral w of None \<Rightarrow> [] | Some c \<Rightarrow> c) tabs))"
proof -
  define xs where
    "xs = foldl (corral_step H clk
                       (if wrangleOption (getSettings w) = [] then ''exactURLMatch''
                        else wrangleOption (getSettings w)))
                    (case tabCorral w of None \<Rightarrow> [] | Some c \<Rightarrow> c) tabs"
  have mx: "(if corralMax (getSettings w) = 0 then 100 else corralMax (getSettings w))
              = corralMax (getSettings w)"
    using assms(2) by simp
  have eq: "addToCorral H clk tabs w =
          (if int (length xs) > corralMax (getSettings w)
           then w\<lparr>tabCorral := Some (take (nat (corralMax (getSettings w))) xs)\<rparr>
           else w\<lparr>tabCorral := Some xs\<rparr>)"
    unfolding addToCorral_def Let_def xs_def[symmetric] mx using assms by simp
  show ?thesis
  proof (cases "int (length xs) > corralMax (getSettings w)")
    case True
    then show ?thesis unfolding xs_def[symmetric] eq by simp
  next
    case False
    then have "take (nat (corralMax (getSettings w))) xs = xs" by simp
    then show ?thesis unfolding xs_def[symmetric] eq using False by simp
  qed
qed

text \<open>
  Claim C6. With a positive \<open>corralMax\<close>, the stored corral after any add has at most
  \<open>corralMax\<close> entries. Under exact-URL-match deduplication (also the default when the
  option is empty), adding a closed tab whose address has one entry in the corral
  removes that entry and puts a new entry for the address at the front, stamped with the
  current time; afterwards the corral holds exactly one entry for the address, the new
  one.
\<close>

theorem addToCorral_exact_match:
  assumes "storage_ok w" and "settingsStore w = Some s" and "0 < corralMax s"
  shows "length (getCorral (addToCorral H clk tabs w)) \<le> nat (corralMax s)
       \<and> ((wrangleOption s = ''exactURLMatch'' \<or> wrangleOption s = []) \<and> tab_url t = Some u
            \<and> length (filter (\<lambda>e. c_url e = u) (getCorral w)) = 1 \<longrightarrow>
          getCorral (addToCorral H clk [t] w)
            = take (nat (corralMax s))
                (new_corral_entry clk t # remove_first (\<lambda>e. c_url e = u) (getCorral w))
          \<and> hd (getCorral (addToCorral H clk [t] w)) = new_corral_entry clk t
          \<and> c_url (hd (getCorral (addToCorral H clk [t] w))) = u
          \<and> closedAt (hd (getCorral (addToCorral H clk [t] w))) = date_now clk
          \<and> filter (\<lambda>e. c_url e = u) (getCorral (addToCorral H clk [t] w))
              = [new_corral_entry clk t])"
proof (intro conjI impI)
  have gs: "getSettings w = s" using assms(1,2) by (simp add: getSettings_def)
  have "getCorral (addToCorral H clk tabs w) = the (tabCorral (addToCorral H clk tabs w))"
    using assms(1) addToCorral_tabCorral[of w H clk tabs] assms(3)
    by (simp add: getCorral_def addToCorral_other_fields gs)
  then show "length (getCorral (addToCorral H clk tabs w)) \<le> nat (corralMax s)"
    using addToCorral_tabCorral[of w H clk tabs] assms(1,3) by (simp add: gs)
next
  assume a: "(wrangleOption s = ''exactURLMatch'' \<or> wrangleOption s = []) \<and> tab_url t = Some u
            \<and> length (filter (\<lambda>e. c_url e = u) (getCorral w)) = 1"
  have gs: "getSettings w = s" using assms(1,2) by (simp add: getSettings_def)
  let ?c = "getCorral w"
  let ?new = "new_corral_entry clk t"
  let ?full = "?new # remove_first (\<lambda>e. c_url e = u) ?c"
  have c: "(case tabCorral w of None \<Rightarrow> [] | Some c \<Rightarrow> c) = ?c"
    using assms(1) by (simp add: getCorral_def)
  have step: "corral_step H clk ''exactURLMatch'' ?c t = ?full"
    using a by (simp add: corral_step_def dedup_def)
  from a have "wrangleOption s = ''exactURLMatch'' \<or> wrangleOption s = []" by blast
  then have opt: "(if wrangleOption s = [] then ''exactURLMatch'' else wrangleOption s)
                    = ''exactURLMatch''"
    by (elim disjE) simp_all
  have "tabCorral (addToCorral H clk [t] w) = Some (take (nat (corralMax s)) ?full)"
    using addToCorral_tabCorral[of w H clk "[t]"] assms(1,3)
    unfolding gs opt c by (simp add: step)
  then have res: "getCorral (addToCorral H clk [t] w) = take (nat (corralMax s)) ?full"
    using assms(1) by (simp add: getCorral_def addToCorral_other_fields)
  show "getCorral (addToCorral H clk [t] w) = take (nat (corralMax s)) ?full" by (rule res)
  have pos: "nat (corralMax s) = Suc (nat (corralMax s) - 1)" using assms(3) by simp
  have tk: "take (nat (corralMax s)) ?full
              = ?new # take (nat (corralMax s) - 1) (remove_first (\<lambda>e. c_url e = u) ?c)"
    by (subst pos) simp
  show "hd (getCorral (addToCorral H clk [t] w)) = ?new" by (simp add: res tk)
  show "c_url (hd (getCorral (addToCorral H clk [t] w))) = u"
    using a by (simp add: res tk new_corral_entry_url)
  have "closedAt ?new = date_now clk" by (simp add: new_corral_entry_def)
  then show "closedAt (hd (getCorral (addToCorral H clk [t] w))) = date_now clk"
    by (simp add: res tk)
  have "length (filter (\<lambda>e. c_url e = u) (remove_first (\<lambda>e. c_url e = u) ?c)) = 0"
    using a by (simp add: remove_first_filter_length)
  then have "filter (\<lambda>e. c_url e = u) (remove_first (\<lambda>e. c_url e = u) ?c) = []"
    by simp
  then have "filter (\<lambda>e. c_url e = u)
                (take (nat (corralMax s) - 1) (remove_first (\<lambda>e. c_url e = u) ?c)) = []"
    by (rule filter_take_empty)
  then show "filter (\<lambda>e. c_url e = u) (getCorral (addToCorral H clk [t] w)) = [?new]"
    using a by (simp add: res tk new_corral_entry_url)
qed

theorem addToCorral_exact_match_witness:
  "length (getCorral (addToCorral plain_hostname example_clock
       [example_tab 1 1 ''https://a.com''] corral_world)) \<le> 100
   \<and> map c_url (getCorral (addToCorral plain_hostname example_clock
       [example_tab 1 1 ''https://a.com''] corral_world))
       = [''https://a.com'', ''https://x.com/'', ''https://y.com/'']
   \<and> map closedAt (getCorral (addToCorral plain_hostname example_clock
       [example_tab 1 1 ''https://a.com''] corral_world))
       = [1000000, 300, 100]"
proof -
  have ok: "storage_ok corral_world" by (simp add: corral_world_def example_world_def)
  have st: "settingsStore corral_world = Some DEFAULT_SETTINGS"
    by (simp add: corral_world_def example_world_def)
  have mx: "0 < corralMax DEFAULT_SETTINGS" "nat (corralMax DEFAULT_SETTINGS) = 100"
    by (simp_all add: DEFAULT_SETTINGS_def)
  have wo: "wrangleOption DEFAULT_SETTINGS = ''exactURLMatch''"
    by (simp add: DEFAULT_SETTINGS_def)
  have u: "tab_url (example_tab 1 1 ''https://a.com'') = Some ''https://a.com''"
    by (simp add: example_tab_def)
  have c: "getCorral corral_world = [example_entry ''https://x.com/'' 300,
                            example_entry ''https://a.com'' 200,
                            example_entry ''https://y.com/'' 100]"
    by (simp add: getCorral_def corral_world_def example_world_def)
  have one: "length (filter (\<lambda>e. c_url e = ''https://a.com'') (getCorral corral_world)) = 1"
    unfolding c by (simp add: example_entry_def)
  have rf: "remove_first (\<lambda>e. c_url e = ''https://a.com'') (getCorral corral_world)
              = [example_entry ''https://x.com/'' 300, example_entry ''https://y.com/'' 100]"
    unfolding c by (simp add: example_entry_def)
  note T = addToCorral_exact_match
      [where w = corral_world and s = DEFAULT_SETTINGS and H = plain_hostname
         and clk = example_clock and tabs = "[example_tab 1 1 ''https://a.com'']"
         and t = "example_tab 1 1 ''https://a.com''" and u = "''https://a.com''",
       OF ok st mx(1)]
  have len: "length (getCorral (addToCorral plain_hostname example_clock
       [example_tab 1 1 ''https://a.com''] corral_world)) \<le> 100"
    using T mx(2) by simp
  have res: "getCorral (addToCorral plain_hostname example_clock
               [example_tab 1 1 ''https://a.com''] corral_world)
             = take 100 (new_corral_entry example_clock (example_tab 1 1 ''https://a.com'')
                 # [example_entry ''https://x.com/'' 300, example_entry ''https://y.com/'' 100])"
    using T wo u one unfolding rf mx(2) by blast
  have n: "c_url (new_corral_entry example_clock (example_tab 1 1 ''https://a.com''))
             = ''https://a.com''"
    "closedAt (new_corral_entry example_clock (example_tab 1 1 ''https://a.com'')) = 1000000"
    by (simp_all add: new_corral_entry_def example_tab_def or_default_def falsy_def
        example_clock_def)
  show ?thesis using len n unfolding res by (simp add: example_entry_def)
qed

lemma remove_first_subset: "set (remove_first p xs) \<subseteq> set xs"
  by (induction xs) auto

lemma remove_first_distinct_urls:
  "distinct (map c_url xs) \<Longrightarrow> distinct (map c_url (remove_first p xs))"
proof (induction xs)
  case Nil
  then show ?case by simp
next
  case (Cons x xs)
  then show ?case using remove_first_subset[of p xs] by auto
qed

lemma remove_first_url_gone:
  "distinct (map c_url xs) \<Longrightarrow> u \<notin> c_url ` set (remove_first (\<lambda>e. c_url e = u) xs)"
proof (induction xs)
  case Nil
  then show ?case by simp
next
  case (Cons x xs)
  then show ?case by (cases "c_url x = u") auto
qed

lemma corral_step_distinct_urls:
  assumes "distinct (map c_url c)" and "tab_url t = Some u"
  shows "distinct (map c_url (corral_step H clk ''exactURLMatch'' c t))"
proof -
  have "c_url (new_corral_entry clk t) = u" using assms(2) by (rule new_corral_entry_url)
  moreover have "u \<notin> c_url ` set (remove_first (\<lambda>e. c_url e = u) c)"
    using assms(1) by (rule remove_first_url_gone)
  moreover have "distinct (map c_url (remove_first (\<lambda>e. c_url e = u) c))"
    using assms(1) by (rule remove_first_distinct_urls)
  ultimately show ?thesis
    using assms(2) by (simp add: corral_step_def dedup_def)
qed

lemma corral_loop_distinct_urls:
  assumes "distinct (map c_url c)" and "\<forall>t \<in> set tabs. tab_url t \<noteq> None"
  shows "distinct (map c_url (foldl (corral_step H clk ''exactURLMatch'') c tabs))"
  using assms
proof (induction tabs arbitrary: c)
  case Nil
  then show ?case by simp
next
  case (Cons t tabs)
  then obtain u where "tab_url t = Some u" by auto
  then have "distinct (map c_url (corral_step H clk ''exactURLMatch'' c t))"
    using Cons.prems(1) by (rule corral_step_distinct_urls[rotated])
  then show ?case using Cons.IH Cons.prems(2) by simp
qed

text \<open>
  Under exact-URL-match deduplication a corral without repeated addresses stays without
  repeated addresses, whatever batch of tabs with known addresses is added.
\<close>

lemma addToCorral_keeps_urls_distinct:
  assumes "storage_ok w" and "settingsStore w = Some s" and "0 < corralMax s"
    and "wrangleOption s = ''exactURLMatch'' \<or> wrangleOption s = []"
    and "distinct (map c_url (getCorral w))"
    and "\<forall>t \<in> set tabs. tab_url t \<noteq> None"
  shows "distinct (map c_url (getCorral (addToCorral H clk tabs w)))"
proof -
  have gs: "getSettings w = s" using assms(1,2) by (simp add: getSettings_def)
  have c: "(case tabCorral w of None \<Rightarrow> [] | Some c \<Rightarrow> c) = getCorral w"
    using assms(1) by (simp add: getCorral_def)
  have opt: "(if wrangleOption s = [] then ''exactURLMatch'' else wrangleOption s)
               = ''exactURLMatch''"
    using assms(4) by (elim disjE) simp_all
  have "tabCorral (addToCorral H clk tabs w)
          = Some (take (nat (corralMax s))
                    (foldl (corral_step H clk ''exactURLMatch'') (getCorral w) tabs))"
    using addToCorral_tabCorral[of w H clk tabs] assms(1,3) unfolding gs opt c by simp
  then have "getCorral (addToCorral H clk tabs w)
          = take (nat (corralMax s))
              (foldl (corral_step H clk ''exactURLMatch'') (getCorral w) tabs)"
    using assms(1) by (simp add: getCorral_def addToCorral_other_fields)
  moreover have "distinct (map c_url
       (foldl (corral_step H clk ''exactURLMatch'') (getCorral w) tabs))"
    using assms(5,6) by (rule corral_loop_distinct_urls)
  ultimately show ?thesis by (simp add: take_map[symmetric] del: take_map)
qed

section \<open>Enforcement policy: only the triggering tab is closed\<close>

lemma handleTabCreated_frame:
  "host_tabs (handleTabCreated H clk t w)
     \<in> {host_tabs w, filter (\<lambda>x. tab_id x \<noteq> tab_id t) (host_tabs w)}"
proof -
  define s where "s = getSettings w"
  define w1 where
    "w1 = (if allowlistEnabled s \<and> isRealUrl (tab_url t)
              \<and> isUrlAllowed H (tab_url t) (Some (allowlist s))
           then w\<lparr>allowlistTabs := insert (tab_id t) (allowlistTabs w)\<rparr> else w)"
  define P where
    "P = (\<lambda>x::world. host_tabs x \<in> {host_tabs w, filter (\<lambda>x. tab_id x \<noteq> tab_id t) (host_tabs w)})"
  have h1: "host_tabs w1 = host_tabs w" by (simp add: w1_def)
  have p: "P w" "P w1" "P (closeTab clk (tab_id t) w1)"
    "P (w1\<lparr>pendingTabs := (pendingTabs w1)(tab_id t \<mapsto> (tab_windowId t, date_now clk)),
           timers := timers w1 @
             [(date_now clk + (PENDING_TIMEOUT + 50), CheckPending (tab_id t))]\<rparr>)"
    by (simp_all add: P_def closeTab_host_tabs h1)
  have "P (handleTabCreated H clk t w)"
    unfolding handleTabCreated_def Let_def s_def[symmetric] w1_def[symmetric]
    by (simp add: p)
  then show ?thesis by (simp add: P_def)
qed

lemma handleTabUpdated_frame:
  "host_tabs (handleTabUpdated H clk tabId changeUrl t w)
     \<in> {host_tabs w, filter (\<lambda>x. tab_id x \<noteq> tabId) (host_tabs w)}"
proof -
  define s where "s = getSettings w"
  define w1 where "w1 = w\<lparr>pendingTabs := (pendingTabs w)(tabId := None)\<rparr>"
  define w2 where "w2 = w\<lparr>allowlistTabs := allowlistTabs w - {tabId}\<rparr>"
  define P where
    "P = (\<lambda>x::world. host_tabs x \<in> {host_tabs w, filter (\<lambda>x. tab_id x \<noteq> tabId) (host_tabs w)})"
  have h: "host_tabs w1 = host_tabs w" "host_tabs w2 = host_tabs w"
    by (simp_all add: w1_def w2_def)
  have p: "P w" "P w1" "P w2" "P (w1\<lparr>allowlistTabs := insert tabId (allowlistTabs w1)\<rparr>)"
    "P (w\<lparr>allowlistTabs := insert tabId (allowlistTabs w)\<rparr>)"
    "P (closeTab clk tabId w1)" "P (closeTab clk tabId w2)"
    by (simp_all add: P_def closeTab_host_tabs h)
  have "P (handleTabUpdated H clk tabId changeUrl t w)"
    unfolding handleTabUpdated_def Let_def s_def[symmetric] w1_def[symmetric] w2_def[symmetric]
    by (simp add: p)
  then show ?thesis by (simp add: P_def)
qed

lemma checkPendingTab_frame:
  "host_tabs (checkPendingTab H clk tabId w)
     \<in> {host_tabs w, filter (\<lambda>x. tab_id x \<noteq> tabId) (host_tabs w)}"
proof -
  define w1 where "w1 = w\<lparr>pendingTabs := (pendingTabs w)(tabId := None)\<rparr>"
  define P where
    "P = (\<lambda>x::world. host_tabs x \<in> {host_tabs w, filter (\<lambda>x. tab_id x \<noteq> tabId) (host_tabs w)})"
  have h: "host_tabs w1 = host_tabs w" by (simp add: w1_def)
  have p: "P w" "P w1" "P (w1\<lparr>allowlistTabs := insert tabId (allowlistTabs w1)\<rparr>)"
    "P (closeTab clk tabId w1)"
    by (simp_all add: P_def closeTab_host_tabs h)
  have "P (checkPendingTab H clk tabId w)"
    unfolding checkPendingTab_def Let_def w1_def[symmetric]
    by (simp add: p split: option.splits)
  then show ?thesis by (simp add: P_def)
qed

text \<open>
  Claim C1. After \<open>handleTabCreated\<close>, \<open>handleTabUpdated\<close> or
  \<open>checkPendingTab\<close> the browser's tab list is either unchanged or is the old list
  without the tabs carrying the triggering identifier (the created tab, the updated tab,
  the pending tab). No tab with another identifier is ever closed by these handlers.
\<close>

theorem only_triggering_tab_closed:
  "(host_tabs (handleTabCreated H clk t w) = host_tabs w
      \<or> host_tabs (handleTabCreated H clk t w)
           = filter (\<lambda>x. tab_id x \<noteq> tab_id t) (host_tabs w))
   \<and> (host_tabs (handleTabUpdated H clk tabId changeUrl t' w) = host_tabs w
      \<or> host_tabs (handleTabUpdated H clk tabId changeUrl t' w)
           = filter (\<lambda>x. tab_id x \<noteq> tabId) (host_tabs w))
   \<and> (host_tabs (checkPendingTab H clk tabId w) = host_tabs w
      \<or> host_tabs (checkPendingTab H clk tabId w)
           = filter (\<lambda>x. tab_id x \<noteq> tabId) (host_tabs w))"
  using handleTabCreated_frame[of H clk t w]
    handleTabUpdated_frame[of H clk tabId changeUrl t' w]
    checkPendingTab_frame[of H clk tabId w]
  by blast

theorem only_triggering_tab_closed_witness:
  "map tab_id (host_tabs (handleTabCreated plain_hostname example_clock
       (example_tab 4 1 ''https://d.io/'') four_tab_world)) = [1, 2, 3]
   \<and> host_tabs (checkPendingTab plain_hostname example_clock 4 four_tab_world)
       = host_tabs four_tab_world"
proof -
  have len: "length (host_tabs (handleTabCreated plain_hostname example_clock
               (example_tab 4 1 ''https://d.io/'') four_tab_world)) = 3"
    by (simp add: handleTabCreated_def four_tab_world_def example_world_def example_tab_def
        getSettings_def DEFAULT_SETTINGS_def MAX_TABS_def getCurrentTabCount_def
        getWindowTabCount_def tabs_query_window_def closeTab_host_tabs Let_def)
  have "length (host_tabs four_tab_world) = 4"
    by (simp add: four_tab_world_def example_world_def)
  then have ne: "host_tabs (handleTabCreated plain_hostname example_clock
               (example_tab 4 1 ''https://d.io/'') four_tab_world) \<noteq> host_tabs four_tab_world"
    using len by auto
  have f: "map tab_id (filter (\<lambda>x. tab_id x \<noteq> tab_id (example_tab 4 1 ''https://d.io/''))
               (host_tabs four_tab_world)) = [1, 2, 3]"
    by (simp add: four_tab_world_def example_world_def example_tab_def)
  have np: "pendingTabs four_tab_world 4 = None"
    by (simp add: four_tab_world_def example_world_def)
  have c: "host_tabs (checkPendingTab plain_hostname example_clock 4 four_tab_world)
             = host_tabs four_tab_world"
    using np by (simp add: checkPendingTab_def)
  note T = only_triggering_tab_closed
      [where H = plain_hostname and clk = example_clock
         and t = "example_tab 4 1 ''https://d.io/''" and w = four_tab_world]
  from T ne have "host_tabs (handleTabCreated plain_hostname example_clock
               (example_tab 4 1 ''https://d.io/'') four_tab_world)
           = filter (\<lambda>x. tab_id x \<noteq> tab_id (example_tab 4 1 ''https://d.io/''))
               (host_tabs four_tab_world)"
    by blast
  then show ?thesis using f c by simp
qed

section \<open>Enforcement policy: tabs whose address is not yet known\<close>

text \<open>
  Claim C5 as stated says that every new tab over the limit with an unknown address is
  registered as pending instead of being closed at once. With allowlisting disabled
  (the default) the handler closes such a tab immediately: below, the fourth tab of the
  window has no address, the count 4 exceeds the limit 3, and after the handler the tab
  is gone, nothing is pending and no timeout is scheduled.
\<close>

theorem pending_claim_counterexample:
  "\<not> isRealUrl (tab_url (blank_tab 4 1))
   \<and> int (getCurrentTabCount plain_hostname blank_tab_world (tab_windowId (blank_tab 4 1))
           (getSettings blank_tab_world)) > maxTabs (getSettings blank_tab_world)
   \<and> pendingTabs (handleTabCreated plain_hostname example_clock (blank_tab 4 1) blank_tab_world) 4
       = None
   \<and> timers (handleTabCreated plain_hostname example_clock (blank_tab 4 1) blank_tab_world) = []
   \<and> map tab_id (host_tabs
         (handleTabCreated plain_hostname example_clock (blank_tab 4 1) blank_tab_world))
       = [1, 2, 3]"
  by (simp add: handleTabCreated_def blank_tab_world_def blank_tab_def example_world_def
      example_tab_def getSettings_def DEFAULT_SETTINGS_def MAX_TABS_def isRealUrl_def
      getCurrentTabCount_def getWindowTabCount_def tabs_query_window_def closeTab_def
      tabs_remove_def incrementBlocked_def saveStats_def Let_def)

lemma closeTab_pendingTabs: "pendingTabs (closeTab clk i w) i = None"
  by (simp add: closeTab_def tabs_remove_def incrementBlocked_def saveStats_def Let_def
      split: option.splits)

lemma closeTab_timers: "timers (closeTab clk i w) = timers w"
  by (simp add: closeTab_def tabs_remove_def incrementBlocked_def saveStats_def Let_def
      split: option.splits)

text \<open>
  The re-check in any state: once 300 ms have passed since the registration, the pending
  entry is removed; nothing else happens when the limiter or allowlisting has been
  switched off or the tab is gone; otherwise the tab is kept and tracked when its address
  is allowlisted, kept when the count is within the limit, and closed when it is not.
\<close>

lemma checkPendingTab_due:
  assumes "pendingTabs w2 i = Some (wid, ts)" and "ts + 300 \<le> date_now clk'"
  shows "pendingTabs (checkPendingTab H clk' i w2) i = None
       \<and> (\<not> (enabled (getSettings w2) \<and> allowlistEnabled (getSettings w2)) \<longrightarrow>
            host_tabs (checkPendingTab H clk' i w2) = host_tabs w2)
       \<and> (enabled (getSettings w2) \<and> allowlistEnabled (getSettings w2) \<longrightarrow>
            (case tabs_get i w2 of
               None \<Rightarrow> host_tabs (checkPendingTab H clk' i w2) = host_tabs w2
             | Some t' \<Rightarrow>
                 if isRealUrl (tab_url t')
                    \<and> isUrlAllowed H (tab_url t') (Some (allowlist (getSettings w2)))
                 then host_tabs (checkPendingTab H clk' i w2) = host_tabs w2
                      \<and> i \<in> allowlistTabs (checkPendingTab H clk' i w2)
                 else if int (getCurrentTabCount H w2 (tab_windowId t') (getSettings w2))
                           \<le> maxTabs (getSettings w2)
                 then host_tabs (checkPendingTab H clk' i w2) = host_tabs w2
                 else host_tabs (checkPendingTab H clk' i w2)
                        = filter (\<lambda>x. tab_id x \<noteq> i) (host_tabs w2)))"
proof -
  define w1 where "w1 = w2\<lparr>pendingTabs := (pendingTabs w2)(i := None)\<rparr>"
  define s2 where "s2 = getSettings w2"
  have f1: "host_tabs w1 = host_tabs w2" "getSettings w1 = s2" "pendingTabs w1 i = None"
    "tabs_get i w1 = tabs_get i w2"
    "\<And>wid'. getCurrentTabCount H w1 wid' s2 = getCurrentTabCount H w2 wid' s2"
    by (simp_all add: w1_def s2_def getSettings_def tabs_get_def getCurrentTabCount_def
        getWindowTabCount_def getGlobalTabCount_def tabs_query_window_def tabs_query_all_def)
  have due: "\<not> date_now clk' - ts < PENDING_TIMEOUT"
    using assms(2) by (simp add: PENDING_TIMEOUT_def)
  have eq: "checkPendingTab H clk' i w2 =
       (if \<not> enabled s2 then w1
        else if \<not> allowlistEnabled s2 then w1
        else (case tabs_get i w2 of
                None \<Rightarrow> w1
              | Some t' \<Rightarrow>
                  if isRealUrl (tab_url t') \<and> isUrlAllowed H (tab_url t') (Some (allowlist s2))
                  then w1\<lparr>allowlistTabs := insert i (allowlistTabs w1)\<rparr>
                  else if int (getCurrentTabCount H w2 (tab_windowId t') s2) \<le> maxTabs s2
                  then w1
                  else closeTab clk' i w1))"
    unfolding checkPendingTab_def Let_def
    using assms(1) due
    by (simp add: f1[unfolded w1_def] w1_def split: option.splits)
  show ?thesis
    unfolding s2_def[symmetric] eq
    by (simp add: f1 closeTab_pendingTabs closeTab_host_tabs split: option.splits)
qed

text \<open>
  Creation of a tab whose address is known, under allowlisting: the same three tests.
\<close>

lemma handleTabCreated_known_url:
  assumes "storage_ok w" and "settingsStore w = Some s" and "enabled s"
    and "allowlistEnabled s" and "tab_id t \<notin> corralRestoredTabs w"
    and "isRealUrl (tab_url t)"
  shows "if isUrlAllowed H (tab_url t) (Some (allowlist s))
         then host_tabs (handleTabCreated H clk t w) = host_tabs w
              \<and> tab_id t \<in> allowlistTabs (handleTabCreated H clk t w)
         else if int (getCurrentTabCount H w (tab_windowId t) s) \<le> maxTabs s
         then host_tabs (handleTabCreated H clk t w) = host_tabs w
         else host_tabs (handleTabCreated H clk t w)
                = filter (\<lambda>x. tab_id x \<noteq> tab_id t) (host_tabs w)"
proof -
  have gs: "getSettings w = s" using assms(1,2) by (simp add: getSettings_def)
  show ?thesis
  proof (cases "isUrlAllowed H (tab_url t) (Some (allowlist s))")
    case True
    then have "handleTabCreated H clk t w
                 = w\<lparr>allowlistTabs := insert (tab_id t) (allowlistTabs w)\<rparr>"
      using assms(3-6) by (simp add: handleTabCreated_def gs Let_def)
    then show ?thesis using True by simp
  next
    case False
    then have "handleTabCreated H clk t w
                 = (if int (getCurrentTabCount H w (tab_windowId t) s) \<le> maxTabs s then w
                    else closeTab clk (tab_id t) w)"
      using assms(3-6) by (simp add: handleTabCreated_def gs Let_def)
    then show ?thesis using False by (simp add: closeTab_host_tabs)
  qed
qed

text \<open>
  Claim C5, amended. Take a new tab that is over the limit, has no usable address yet and
  was not just restored from the corral, with the limiter enabled.

  \<^item> When allowlisting is enabled, \<open>handleTabCreated\<close> does not close it: the tab list
    and the stats are unchanged, the tab is registered as pending with the current time,
    and a re-check is scheduled 350 ms later.
  \<^item> When allowlisting is disabled, the tab is closed at once; nothing is pending and no
    re-check is scheduled.
  \<^item> The re-check, run in whatever state \<open>w2\<close> the browser is in by then, with the
    registration still there and at least 300 ms old, removes the pending entry. If the
    limiter or allowlisting has been switched off, or the tab is gone, nothing else
    happens. Otherwise it decides by the allowlist and limit tests: address allowlisted,
    kept and tracked; count within the limit, kept; else this tab is closed.
  \<^item> Those are the tests \<open>handleTabCreated\<close> applies to a new tab \<open>t2\<close> whose address
    is known.
\<close>

theorem unknown_url_tab_pending_under_allowlisting:
  assumes "storage_ok w" and "settingsStore w = Some s" and "enabled s"
    and "tab_id t \<notin> corralRestoredTabs w"
    and "\<not> isRealUrl (tab_url t)"
    and "int (getCurrentTabCount H w (tab_windowId t) s) > maxTabs s"
  shows "(allowlistEnabled s \<longrightarrow>
            host_tabs (handleTabCreated H clk t w) = host_tabs w
            \<and> statsStore (handleTabCreated H clk t w) = statsStore w
            \<and> pendingTabs (handleTabCreated H clk t w) (tab_id t)
                = Some (tab_windowId t, date_now clk)
            \<and> timers (handleTabCreated H clk t w)
                = timers w @ [(date_now clk + 350, CheckPending (tab_id t))])
       \<and> (\<not> allowlistEnabled s \<longrightarrow>
            host_tabs (handleTabCreated H clk t w)
              = filter (\<lambda>x. tab_id x \<noteq> tab_id t) (host_tabs w)
            \<and> pendingTabs (handleTabCreated H clk t w) (tab_id t) = None
            \<and> timers (handleTabCreated H clk t w) = timers w)
       \<and> (pendingTabs w2 (tab_id t) = Some (wid, date_now clk)
            \<and> date_now clk + 300 \<le> date_now clk' \<longrightarrow>
            pendingTabs (fire_timer H clk' (CheckPending (tab_id t)) w2) (tab_id t) = None
            \<and> (\<not> (enabled (getSettings w2) \<and> allowlistEnabled (getSettings w2)) \<longrightarrow>
                 host_tabs (fire_timer H clk' (CheckPending (tab_id t)) w2) = host_tabs w2)
            \<and> (enabled (getSettings w2) \<and> allowlistEnabled (getSettings w2) \<longrightarrow>
                 (case tabs_get (tab_id t) w2 of
                    None \<Rightarrow>
                      host_tabs (fire_timer H clk' (CheckPending (tab_id t)) w2) = host_tabs w2
                  | Some t' \<Rightarrow>
                      if isRealUrl (tab_url t')
                         \<and> isUrlAllowed H (tab_url t') (Some (allowlist (getSettings w2)))
                      then host_tabs (fire_timer H clk' (CheckPending (tab_id t)) w2)
                             = host_tabs w2
                           \<and> tab_id t \<in> allowlistTabs
                                 (fire_timer H clk' (CheckPending (tab_id t)) w2)
                      else if int (getCurrentTabCount H w2 (tab_windowId t') (getSettings w2))
                                \<le> maxTabs (getSettings w2)
                      then host_tabs (fire_timer H clk' (CheckPending (tab_id t)) w2)
                             = host_tabs w2
                      else host_tabs (fire_timer H clk' (CheckPending (tab_id t)) w2)
                             = filter (\<lambda>x. tab_id x \<noteq> tab_id t) (host_tabs w2))))
       \<and> (allowlistEnabled s \<and> isRealUrl (tab_url t2)
            \<and> tab_id t2 \<notin> corralRestoredTabs w \<longrightarrow>
            (if isUrlAllowed H (tab_url t2) (Some (allowlist s))
             then host_tabs (handleTabCreated H clk t2 w) = host_tabs w
                  \<and> tab_id t2 \<in> allowlistTabs (handleTabCreated H clk t2 w)
             else if int (getCurrentTabCount H w (tab_windowId t2) s) \<le> maxTabs s
             then host_tabs (handleTabCreated H clk t2 w) = host_tabs w
             else host_tabs (handleTabCreated H clk t2 w)
                    = filter (\<lambda>x. tab_id x \<noteq> tab_id t2) (host_tabs w)))"
proof (intro conjI impI)
  have gs: "getSettings w = s" using assms(1,2) by (simp add: getSettings_def)
  {
    assume on: "allowlistEnabled s"
    define w' where
      "w' = w\<lparr>pendingTabs := (pendingTabs w)(tab_id t \<mapsto> (tab_windowId t, date_now clk)),
              timers := timers w @
                [(date_now clk + (PENDING_TIMEOUT + 50), CheckPending (tab_id t))]\<rparr>"
    have h: "handleTabCreated H clk t w = w'"
      using assms(3-6) on by (simp add: handleTabCreated_def gs Let_def w'_def)
    show "host_tabs (handleTabCreated H clk t w) = host_tabs w"
      and "statsStore (handleTabCreated H clk t w) = statsStore w"
      and "pendingTabs (handleTabCreated H clk t w) (tab_id t)
             = Some (tab_windowId t, date_now clk)"
      and "timers (handleTabCreated H clk t w)
             = timers w @ [(date_now clk + 350, CheckPending (tab_id t))]"
      unfolding h by (simp_all add: w'_def PENDING_TIMEOUT_def)
  }
  {
    assume off: "\<not> allowlistEnabled s"
    have h: "handleTabCreated H clk t w = closeTab clk (tab_id t) w"
      using assms(3-6) off by (simp add: handleTabCreated_def gs Let_def)
    show "host_tabs (handleTabCreated H clk t w)
            = filter (\<lambda>x. tab_id x \<noteq> tab_id t) (host_tabs w)"
      and "pendingTabs (handleTabCreated H clk t w) (tab_id t) = None"
      and "timers (handleTabCreated H clk t w) = timers w"
      unfolding h by (simp_all add: closeTab_host_tabs closeTab_pendingTabs closeTab_timers)
  }
  {
    assume a: "pendingTabs w2 (tab_id t) = Some (wid, date_now clk)
                 \<and> date_now clk + 300 \<le> date_now clk'"
    note D = checkPendingTab_due[of w2 "tab_id t" wid "date_now clk" clk' H]
    have f: "fire_timer H clk' (CheckPending (tab_id t)) w2
               = checkPendingTab H clk' (tab_id t) w2"
      by (simp add: fire_timer_def)
    show "pendingTabs (fire_timer H clk' (CheckPending (tab_id t)) w2) (tab_id t) = None"
      unfolding f using D a by blast
    {
      assume "\<not> (enabled (getSettings w2) \<and> allowlistEnabled (getSettings w2))"
      then show "host_tabs (fire_timer H clk' (CheckPending (tab_id t)) w2) = host_tabs w2"
        unfolding f using D a by blast
    }
    {
      assume "enabled (getSettings w2) \<and> allowlistEnabled (getSettings w2)"
      then show "case tabs_get (tab_id t) w2 of
                    None \<Rightarrow>
                      host_tabs (fire_timer H clk' (CheckPending (tab_id t)) w2) = host_tabs w2
                  | Some t' \<Rightarrow>
                      if isRealUrl (tab_url t')
                         \<and> isUrlAllowed H (tab_url t') (Some (allowlist (getSettings w2)))
                      then host_tabs (fire_timer H clk' (CheckPending (tab_id t)) w2)
                             = host_tabs w2
                           \<and> tab_id t \<in> allowlistTabs
                                 (fire_timer H clk' (CheckPending (tab_id t)) w2)
                      else if int (getCurrentTabCount H w2 (tab_windowId t') (getSettings w2))
                                \<le> maxTabs (getSettings w2)
                      then host_tabs (fire_timer H clk' (CheckPending (tab_id t)) w2)
                             = host_tabs w2
                      else host_tabs (fire_timer H clk' (CheckPending (tab_id t)) w2)
                             = filter (\<lambda>x. tab_id x \<noteq> tab_id t) (host_tabs w2)"
        unfolding f using D a by blast
    }
  }
  {
    assume k: "allowlistEnabled s \<and> isRealUrl (tab_url t2)
                 \<and> tab_id t2 \<notin> corralRestoredTabs w"
    show "if isUrlAllowed H (tab_url t2) (Some (allowlist s))
             then host_tabs (handleTabCreated H clk t2 w) = host_tabs w
                  \<and> tab_id t2 \<in> allowlistTabs (handleTabCreated H clk t2 w)
             else if int (getCurrentTabCount H w (tab_windowId t2) s) \<le> maxTabs s
             then host_tabs (handleTabCreated H clk t2 w) = host_tabs w
             else host_tabs (handleTabCreated H clk t2 w)
                    = filter (\<lambda>x. tab_id x \<noteq> tab_id t2) (host_tabs w)"
      using handleTabCreated_known_url[OF assms(1,2,3), of t2 H clk] k by blast
  }
qed

theorem unknown_url_tab_pending_under_allowlisting_witness:
  "pendingTabs (handleTabCreated plain_hostname example_clock (blank_tab 4 1)
       allowlisting_world) 4 = Some (1, 1000000)
   \<and> map tab_id (host_tabs (handleTabCreated plain_hostname example_clock (blank_tab 4 1)
       allowlisting_world)) = [1, 2, 3, 4]
   \<and> timers (handleTabCreated plain_hostname example_clock (blank_tab 4 1)
       allowlisting_world) = [(1000350, CheckPending 4)]
   \<and> map tab_id (host_tabs (handleTabCreated plain_hostname example_clock (blank_tab 4 1)
       blank_tab_world)) = [1, 2, 3]
   \<and> pendingTabs (handleTabCreated plain_hostname example_clock (blank_tab 4 1)
       blank_tab_world) 4 = None
   \<and> timers (handleTabCreated plain_hostname example_clock (blank_tab 4 1)
       blank_tab_world) = []
   \<and> map tab_id (host_tabs (fire_timer plain_hostname later_clock (CheckPending 4)
         (pending_world [example_tab 1 1 ''https://a.com/'', example_tab 2 1 ''https://b.org/'',
                         example_tab 3 1 ''https://c.net/'', blank_tab 4 1]
            allowlisting_settings))) = [1, 2, 3]
   \<and> map tab_id (host_tabs (fire_timer plain_hostname later_clock (CheckPending 4)
         (pending_world [example_tab 1 1 ''https://a.com/'', example_tab 2 1 ''https://b.org/'',
                         blank_tab 4 1]
            allowlisting_settings))) = [1, 2, 4]
   \<and> map tab_id (host_tabs (fire_timer plain_hostname later_clock (CheckPending 4)
         (pending_world [example_tab 1 1 ''https://a.com/'', example_tab 2 1 ''https://b.org/'',
                         example_tab 3 1 ''https://c.net/'',
                         example_tab 4 1 ''https://mail.example.com/inbox'']
            allowlisting_settings))) = [1, 2, 3, 4]
   \<and> 4 \<in> allowlistTabs (fire_timer plain_hostname later_clock (CheckPending 4)
         (pending_world [example_tab 1 1 ''https://a.com/'', example_tab 2 1 ''https://b.org/'',
                         example_tab 3 1 ''https://c.net/'',
                         example_tab 4 1 ''https://mail.example.com/inbox'']
            allowlisting_settings))
   \<and> map tab_id (host_tabs (fire_timer plain_hostname later_clock (CheckPending 4)
         (pending_world [example_tab 1 1 ''https://a.com/'', example_tab 2 1 ''https://b.org/'',
                         example_tab 3 1 ''https://c.net/'', blank_tab 4 1]
            DEFAULT_SETTINGS))) = [1, 2, 3, 4]
   \<and> map tab_id (host_tabs (handleTabCreated plain_hostname example_clock
         (example_tab 5 1 ''https://d.io/'') five_tab_world)) = [1, 2, 3, 4]"
proof -
  let ?t = "blank_tab 4 1"
  let ?s = allowlisting_settings
  let ?A = "[example_tab 1 1 ''https://a.com/'', example_tab 2 1 ''https://b.org/'',
             example_tab 3 1 ''https://c.net/'', blank_tab 4 1]"
  let ?B = "[example_tab 1 1 ''https://a.com/'', example_tab 2 1 ''https://b.org/'',
             blank_tab 4 1]"
  let ?C = "[example_tab 1 1 ''https://a.com/'', example_tab 2 1 ''https://b.org/'',
             example_tab 3 1 ''https://c.net/'',
             example_tab 4 1 ''https://mail.example.com/inbox'']"
  have al: "\<not> isUrlAllowed plain_hostname (Some ''https://a.com/'') (Some [''example.com''])"
    "\<not> isUrlAllowed plain_hostname (Some ''https://b.org/'') (Some [''example.com''])"
    "\<not> isUrlAllowed plain_hostname (Some ''https://c.net/'') (Some [''example.com''])"
    "\<not> isUrlAllowed plain_hostname (Some ''https://d.io/'') (Some [''example.com''])"
    "\<not> isUrlAllowed plain_hostname None (Some [''example.com''])"
    "isUrlAllowed plain_hostname (Some ''https://mail.example.com/inbox'')
       (Some [''example.com''])"
    by code_simp+
  have real: "isRealUrl (Some ''https://mail.example.com/inbox'')"
    "isRealUrl (Some ''https://d.io/'')" "\<not> isRealUrl None"
    by (simp_all add: isRealUrl_def)
  have s: "enabled ?s" "allowlistEnabled ?s" "maxTabs ?s = 3"
    "allowlist ?s = [''example.com'']" "\<not> globalLimit ?s"
    "enabled DEFAULT_SETTINGS" "\<not> allowlistEnabled DEFAULT_SETTINGS"
    "maxTabs DEFAULT_SETTINGS = 3" "\<not> globalLimit DEFAULT_SETTINGS"
    by (simp_all add: allowlisting_settings_def DEFAULT_SETTINGS_def MAX_TABS_def)
  have t: "tab_id ?t = 4" "tab_windowId ?t = 1" "tab_url ?t = None"
    "tab_id (example_tab 5 1 ''https://d.io/'') = 5"
    "tab_windowId (example_tab 5 1 ''https://d.io/'') = 1"
    "tab_url (example_tab 5 1 ''https://d.io/'') = Some ''https://d.io/''"
    by (simp_all add: blank_tab_def example_tab_def)
  have clk: "date_now example_clock = 1000000" "date_now later_clock = 1000350"
    by (simp_all add: example_clock_def later_clock_def)
  \<comment> \<open>the three worlds in which a tab is created\<close>
  have wa: "storage_ok allowlisting_world" "settingsStore allowlisting_world = Some ?s"
    "tab_id ?t \<notin> corralRestoredTabs allowlisting_world" "timers allowlisting_world = []"
    "map tab_id (host_tabs allowlisting_world) = [1, 2, 3, 4]"
    by (simp_all add: allowlisting_world_def allowlisting_settings_def example_world_def
        example_tab_def blank_tab_def)
  have wb: "storage_ok blank_tab_world" "settingsStore blank_tab_world = Some DEFAULT_SETTINGS"
    "tab_id ?t \<notin> corralRestoredTabs blank_tab_world" "timers blank_tab_world = []"
    "map tab_id (filter (\<lambda>x. tab_id x \<noteq> 4) (host_tabs blank_tab_world)) = [1, 2, 3]"
    by (simp_all add: blank_tab_world_def example_world_def example_tab_def blank_tab_def)
  have wf: "storage_ok five_tab_world" "settingsStore five_tab_world = Some ?s"
    "tab_id ?t \<notin> corralRestoredTabs five_tab_world"
    "tab_id (example_tab 5 1 ''https://d.io/'') \<notin> corralRestoredTabs five_tab_world"
    "map tab_id (filter (\<lambda>x. tab_id x \<noteq> 5) (host_tabs five_tab_world)) = [1, 2, 3, 4]"
    by (simp_all add: five_tab_world_def example_world_def example_tab_def blank_tab_def)
  have ca: "getCurrentTabCount plain_hostname allowlisting_world 1 ?s = 4"
    using al s
    by (simp add: getCurrentTabCount_def getWindowTabCount_def tabs_query_window_def
        allowlisting_world_def example_world_def example_tab_def blank_tab_def)
  have cb: "getCurrentTabCount plain_hostname blank_tab_world 1 DEFAULT_SETTINGS = 4"
    using s
    by (simp add: getCurrentTabCount_def getWindowTabCount_def tabs_query_window_def
        blank_tab_world_def example_world_def example_tab_def blank_tab_def)
  have cf: "getCurrentTabCount plain_hostname five_tab_world 1 ?s = 5"
    using al s
    by (simp add: getCurrentTabCount_def getWindowTabCount_def tabs_query_window_def
        five_tab_world_def example_world_def example_tab_def blank_tab_def)
  have nr: "\<not> isRealUrl (tab_url ?t)" using t(3) real(3) by simp
  have oa: "int (getCurrentTabCount plain_hostname allowlisting_world (tab_windowId ?t) ?s)
              > maxTabs ?s"
    using ca s(3) t(2) by simp
  have ob: "int (getCurrentTabCount plain_hostname blank_tab_world (tab_windowId ?t)
                   DEFAULT_SETTINGS) > maxTabs DEFAULT_SETTINGS"
    using cb s(8) t(2) by simp
  have "of": "int (getCurrentTabCount plain_hostname five_tab_world (tab_windowId ?t) ?s)
              > maxTabs ?s"
    using cf s(3) t(2) by simp
  \<comment> \<open>the states in which the re-check runs\<close>
  have p: "\<And>ts st. pendingTabs (pending_world ts st) 4 = Some (1, 1000000)"
    "\<And>ts st. getSettings (pending_world ts st) = st"
    "\<And>ts st. host_tabs (pending_world ts st) = ts"
    by (simp_all add: pending_world_def example_world_def getSettings_def)
  have g: "tabs_get 4 (pending_world ?A ?s) = Some ?t"
    "tabs_get 4 (pending_world ?B ?s) = Some ?t"
    "tabs_get 4 (pending_world ?C ?s)
       = Some (example_tab 4 1 ''https://mail.example.com/inbox'')"
    "tab_url (example_tab 4 1 ''https://mail.example.com/inbox'')
       = Some ''https://mail.example.com/inbox''"
    by (simp_all add: tabs_get_def p example_tab_def blank_tab_def)
  have cp: "getCurrentTabCount plain_hostname (pending_world ?A ?s) 1 ?s = 4"
    "getCurrentTabCount plain_hostname (pending_world ?B ?s) 1 ?s = 3"
    using al s
    by (simp_all add: getCurrentTabCount_def getWindowTabCount_def tabs_query_window_def p
        example_tab_def blank_tab_def)
  have fl: "map tab_id (filter (\<lambda>x. tab_id x \<noteq> 4) ?A) = [1, 2, 3]"
    "map tab_id ?A = [1, 2, 3, 4]" "map tab_id ?B = [1, 2, 4]" "map tab_id ?C = [1, 2, 3, 4]"
    by (simp_all add: example_tab_def blank_tab_def)
  note Ta = unknown_url_tab_pending_under_allowlisting
      [where H = plain_hostname and clk = example_clock and clk' = later_clock
         and t = ?t and w = allowlisting_world and s = ?s and wid = 1,
       OF wa(1,2) s(1) wa(3) nr oa]
  note Tb = unknown_url_tab_pending_under_allowlisting
      [where H = plain_hostname and clk = example_clock
         and t = ?t and w = blank_tab_world and s = DEFAULT_SETTINGS,
       OF wb(1,2) s(6) wb(3) nr ob]
  note Tf = unknown_url_tab_pending_under_allowlisting
      [where H = plain_hostname and clk = example_clock
         and t = ?t and w = five_tab_world and s = ?s
         and ?t2.0 = "example_tab 5 1 ''https://d.io/''",
       OF wf(1,2) s(1) wf(3) nr "of"]
  have r1: "pendingTabs (handleTabCreated plain_hostname example_clock ?t allowlisting_world) 4
              = Some (1, 1000000)
     \<and> map tab_id (host_tabs (handleTabCreated plain_hostname example_clock ?t
          allowlisting_world)) = [1, 2, 3, 4]
     \<and> timers (handleTabCreated plain_hostname example_clock ?t allowlisting_world)
          = [(1000350, CheckPending 4)]"
    using Ta s(2) t(1,2) clk(1) wa(4,5) by simp
  have r2: "map tab_id (host_tabs (handleTabCreated plain_hostname example_clock ?t
                blank_tab_world)) = [1, 2, 3]
     \<and> pendingTabs (handleTabCreated plain_hostname example_clock ?t blank_tab_world) 4 = None
     \<and> timers (handleTabCreated plain_hostname example_clock ?t blank_tab_world) = []"
    using Tb s(7) t(1) wb(4,5) by simp
  have r3: "map tab_id (host_tabs (fire_timer plain_hostname later_clock (CheckPending 4)
                (pending_world ?A ?s))) = [1, 2, 3]"
    using Ta[where ?w2.0 = "pending_world ?A ?s"] t clk p g(1) cp(1) s al(5) real(3) fl(1)
    by simp
  have r4: "map tab_id (host_tabs (fire_timer plain_hostname later_clock (CheckPending 4)
                (pending_world ?B ?s))) = [1, 2, 4]"
    using Ta[where ?w2.0 = "pending_world ?B ?s"] t clk p g(2) cp(2) s al(5) real(3) fl(3)
    by simp
  have r5: "map tab_id (host_tabs (fire_timer plain_hostname later_clock (CheckPending 4)
                (pending_world ?C ?s))) = [1, 2, 3, 4]
     \<and> 4 \<in> allowlistTabs (fire_timer plain_hostname later_clock (CheckPending 4)
                (pending_world ?C ?s))"
    using Ta[where ?w2.0 = "pending_world ?C ?s"] t clk p g(3,4) s al(6) real(1) fl(4)
    by simp
  have r6: "map tab_id (host_tabs (fire_timer plain_hostname later_clock (CheckPending 4)
                (pending_world ?A DEFAULT_SETTINGS))) = [1, 2, 3, 4]"
    using Ta[where ?w2.0 = "pending_world ?A DEFAULT_SETTINGS"] t clk p s fl(2)
    by simp
  have r7: "map tab_id (host_tabs (handleTabCreated plain_hostname example_clock
         (example_tab 5 1 ''https://d.io/'') five_tab_world)) = [1, 2, 3, 4]"
    using Tf s t(4,5,6) real(2) al(4) cf wf(4,5) by simp
  show ?thesis using r1 r2 r3 r4 r5 r6 r7 by blast
qed

section \<open>Inactivity reaper: the per-window floor\<close>

lemma group_by_window_lookup:
  "map_of (group_by_window ts) W =
     (if \<exists>t \<in> set ts. tab_windowId t = W
      then Some (filter (\<lambda>t. tab_windowId t = W) ts) else None)"
proof (induction ts rule: rev_induct)
  case Nil
  then show ?case by (simp add: group_by_window_def)
next
  case (snoc x xs)
  have "group_by_window (xs @ [x]) = group_step (group_by_window xs) x"
    by (simp add: group_by_window_def)
  then show ?case
    using snoc by (auto simp: group_step_def update_conv')
qed

lemma map_of_lengths:
  "map_of (map (\<lambda>e. (fst e, int (length (snd e)))) al) W
     = map_option (\<lambda>ts. int (length ts)) (map_of al W)"
  by (induction al) auto

lemma windowRemaining_lookup:
  "map_of (map (\<lambda>e. (fst e, int (length (snd e)))) (group_by_window ts)) W =
     (if \<exists>t \<in> set ts. tab_windowId t = W
      then Some (int (length (filter (\<lambda>t. tab_windowId t = W) ts))) else None)"
  by (simp add: map_of_lengths group_by_window_lookup)


lemma accept_step_other_window:
  assumes "cand_windowId c \<noteq> W"
  shows "map_of (fst (accept_step now m allTabs st c)) W = map_of (fst st) W"
    and "accepted_in W (snd (snd (accept_step now m allTabs st c))) = accepted_in W (snd (snd st))"
  using assms
  by (auto simp: accept_step_def Let_def update_conv' accepted_in_def split: option.splits)

lemma accept_step_same_window:
  assumes "cand_windowId c = W" and "map_of (fst st) W = Some r"
  shows "(r \<le> m \<longrightarrow> map_of (fst (accept_step now m allTabs st c)) W = Some r
            \<and> accepted_in W (snd (snd (accept_step now m allTabs st c)))
                = accepted_in W (snd (snd st)))
       \<and> (m < r \<longrightarrow> map_of (fst (accept_step now m allTabs st c)) W = Some (r - 1)
            \<and> accepted_in W (snd (snd (accept_step now m allTabs st c)))
                \<le> Suc (accepted_in W (snd (snd st))))"
  using assms
  by (auto simp: accept_step_def Let_def update_conv' accepted_in_def split: option.splits)

lemma accept_loop_floor:
  assumes "map_of (fst st) W = Some r"
  shows "\<exists>r'. map_of (fst (foldl (accept_step now m allTabs) st cs)) W = Some r'
           \<and> r' \<le> r
           \<and> int (accepted_in W (snd (snd (foldl (accept_step now m allTabs) st cs))))
               - int (accepted_in W (snd (snd st))) \<le> r - r'
           \<and> (m < r \<longrightarrow> m \<le> r') \<and> (r \<le> m \<longrightarrow> r' = r)"
  using assms
proof (induction cs arbitrary: st r)
  case Nil
  then show ?case by simp
next
  case (Cons c cs)
  let ?st1 = "accept_step now m allTabs st c"
  show ?case
  proof (cases "cand_windowId c = W")
    case False
    have 1: "map_of (fst ?st1) W = Some r"
      using accept_step_other_window(1)[OF False] Cons.prems by simp
    have 2: "accepted_in W (snd (snd ?st1)) = accepted_in W (snd (snd st))"
      using accept_step_other_window(2)[OF False] by simp
    from Cons.IH[OF 1] show ?thesis by (simp add: 2)
  next
    case True
    note S = accept_step_same_window[OF True Cons.prems, of m now allTabs]
    show ?thesis
    proof (cases "r \<le> m")
      case le: True
      then have 1: "map_of (fst ?st1) W = Some r"
        and 2: "accepted_in W (snd (snd ?st1)) = accepted_in W (snd (snd st))"
        using S by simp_all
      from Cons.IH[OF 1] show ?thesis by (simp add: 2)
    next
      case gt: False
      then have 1: "map_of (fst ?st1) W = Some (r - 1)"
        and 2: "accepted_in W (snd (snd ?st1)) \<le> Suc (accepted_in W (snd (snd st)))"
        using S by simp_all
      from Cons.IH[OF 1] obtain r' where
        r': "map_of (fst (foldl (accept_step now m allTabs) ?st1 cs)) W = Some r'"
          "r' \<le> r - 1"
          "int (accepted_in W (snd (snd (foldl (accept_step now m allTabs) ?st1 cs))))
             - int (accepted_in W (snd (snd ?st1))) \<le> r - 1 - r'"
          "m < r - 1 \<longrightarrow> m \<le> r'" "r - 1 \<le> m \<longrightarrow> r' = r - 1"
        by blast
      have "m \<le> r'" using r'(4,5) gt by linarith
      moreover have "int (accepted_in W (snd (snd (foldl (accept_step now m allTabs) ?st1 cs))))
             - int (accepted_in W (snd (snd st))) \<le> r - r'"
        using r'(3) 2 by linarith
      ultimately show ?thesis using r'(1,2) gt by simp
    qed
  qed
qed

lemma scan_step_candidates:
  assumes "t \<in> set allTabs" and "\<forall>c \<in> set (snd acc). from_tab allTabs c"
  shows "\<forall>c \<in> set (snd (scan_step H s now limitMs deb acc t)). from_tab allTabs c"
proof -
  have new: "from_tab allTabs \<lparr>cand_id = tab_id t, cand_windowId = tab_windowId t,
                                 cand_elapsed = e\<rparr>" for e
    using assms(1) by (auto simp: from_tab_def)
  have "set (snd (scan_step H s now limitMs deb acc t))
          \<subseteq> set (snd acc) \<union> {\<lparr>cand_id = tab_id t, cand_windowId = tab_windowId t,
                                 cand_elapsed = now - the (fst acc (tab_id t))\<rparr>}"
    by (auto simp: scan_step_def Let_def split: option.splits if_splits)
  then show ?thesis using assms(2) new by blast
qed

lemma scan_candidates:
  assumes "set ts \<subseteq> set allTabs" and "\<forall>c \<in> set (snd acc). from_tab allTabs c"
  shows "\<forall>c \<in> set (snd (foldl (scan_step H s now limitMs deb) acc ts)). from_tab allTabs c"
  using assms
proof (induction ts arbitrary: acc)
  case Nil
  then show ?case by simp
next
  case (Cons t ts)
  have "\<forall>c \<in> set (snd (scan_step H s now limitMs deb acc t)). from_tab allTabs c"
    using scan_step_candidates[of t allTabs acc] Cons.prems by simp
  then show ?case using Cons.IH Cons.prems by simp
qed

lemma accept_step_subset:
  "fst ` set (snd (snd (accept_step now m allTabs st c))) \<subseteq> fst ` set (snd (snd st)) \<union> {c}"
  by (auto simp: accept_step_def Let_def split: option.splits)

lemma accept_loop_subset:
  "fst ` set (snd (snd (foldl (accept_step now m allTabs) st cs)))
     \<subseteq> fst ` set (snd (snd st)) \<union> set cs"
proof (induction cs arbitrary: st)
  case Nil
  then show ?case by simp
next
  case (Cons c cs)
  show ?case using Cons.IH[of "accept_step now m allTabs st c"] accept_step_subset[of now m allTabs st c]
    by auto
qed

lemma remove_step_host_tabs:
  "host_tabs (fst (remove_step st i)) = filter (\<lambda>t. tab_id t \<noteq> i) (host_tabs (fst st))"
proof (cases "list_ex (\<lambda>t. tab_id t = i) (host_tabs (fst st))")
  case True
  then show ?thesis by (simp add: remove_step_def tabs_remove_def)
next
  case False
  then have "filter (\<lambda>t. tab_id t \<noteq> i) (host_tabs (fst st)) = host_tabs (fst st)"
    by (simp add: list_ex_iff filter_id_conv)
  with False show ?thesis by (simp add: remove_step_def tabs_remove_def)
qed

lemma remove_loop_host_tabs:
  "host_tabs (fst (foldl remove_step st ids))
     = filter (\<lambda>t. tab_id t \<notin> set ids) (host_tabs (fst st))"
proof (induction ids arbitrary: st)
  case Nil
  then show ?case by simp
next
  case (Cons i ids)
  show ?case
    by (simp add: Cons.IH remove_step_host_tabs)
qed

lemma incrementInactiveClosed_host_tabs:
  "incrementInactiveClosed clk n w = Some w' \<Longrightarrow> host_tabs w' = host_tabs w"
  by (auto simp: incrementInactiveClosed_def saveStats_def Let_def split: if_splits)

lemma doInactiveCheck_host_tabs:
  "host_tabs (doInactiveCheck H clk w) =
     (if \<not> inactiveEnabled (getSettings w) then host_tabs w
      else filter (\<lambda>t. tab_id t \<notin> set (map (\<lambda>p. cand_id (fst p)) (tabsToActuallyClose H clk w)))
             (host_tabs w))"
proof (cases "inactiveEnabled (getSettings w)")
  case False
  then show ?thesis by (simp add: doInactiveCheck_def)
next
  case True
  define acc where "acc = tabsToActuallyClose H clk w"
  define la3 :: "nat \<rightharpoonup> int" where
    "la3 = fst (snd (foldl (accept_step (date_now clk) (effective_minTabs (getSettings w))
                 (tabs_query_all w))
             (map (\<lambda>e. (fst e, int (length (snd e)))) (group_by_window (tabs_query_all w)),
              foldl (reset_step (date_now clk) (effective_minTabs (getSettings w)))
                (fst (foldl (scan_step H (getSettings w) (date_now clk)
                         (inactiveMinutes (getSettings w) * 60 * 1000)
                         (activatedDebounceTabId w))
                       (clamp_future (date_now clk) (tabLastAccessed w), [])
                       (tabs_query_all w)))
                (group_by_window (tabs_query_all w)),
              [])
             (filter (\<lambda>c. case map_of (map (\<lambda>e. (fst e, int (length (snd e))))
                                      (group_by_window (tabs_query_all w))) (cand_windowId c) of
                           None \<Rightarrow> False | Some n \<Rightarrow> n > effective_minTabs (getSettings w))
                (sort_key (\<lambda>c. - cand_elapsed c)
                  (snd (foldl (scan_step H (getSettings w) (date_now clk)
                         (inactiveMinutes (getSettings w) * 60 * 1000)
                         (activatedDebounceTabId w))
                       (clamp_future (date_now clk) (tabLastAccessed w), [])
                       (tabs_query_all w)))))))"
  define ids where "ids = map (\<lambda>p. cand_id (fst p)) acc"
  define removed where
    "removed = foldl remove_step
                 (w\<lparr>tabLastAccessed := foldl (\<lambda>m i. m(i := None)) la3 ids\<rparr>, 0) ids"
  define w1 where "w1 = addToCorral H clk (map snd acc) (fst removed)"
  have eq: "doInactiveCheck H clk w =
          (if acc = [] then w\<lparr>tabLastAccessed := la3\<rparr>
           else (case incrementInactiveClosed clk (snd removed) w1 of
                   None \<Rightarrow> w1 | Some w2 \<Rightarrow> w2))"
    using True
    unfolding doInactiveCheck_def tabsToActuallyClose_def Let_def acc_def la3_def ids_def
      removed_def w1_def
    by simp
  have r: "host_tabs (fst removed) = filter (\<lambda>t. tab_id t \<notin> set ids) (host_tabs w)"
    unfolding removed_def by (simp add: remove_loop_host_tabs)
  have w1: "host_tabs w1 = filter (\<lambda>t. tab_id t \<notin> set ids) (host_tabs w)"
    unfolding w1_def by (simp add: addToCorral_other_fields r)
  have "host_tabs (doInactiveCheck H clk w)
          = filter (\<lambda>t. tab_id t \<notin> set ids) (host_tabs w)"
  proof (cases "acc = []")
    case True
    then show ?thesis by (simp add: eq ids_def)
  next
    case False
    then show ?thesis
      by (auto simp: eq w1 split: option.splits dest: incrementInactiveClosed_host_tabs)
  qed
  then show ?thesis using True by (simp add: ids_def acc_def)
qed

lemma filter_split_count:
  "length (filter P (filter (\<lambda>t. tab_id t \<notin> S) xs))
     + length (filter (\<lambda>t. P t \<and> tab_id t \<in> S) xs) = length (filter P xs)"
  by (induction xs) auto

lemma closed_count_bound:
  assumes d: "distinct (map tab_id allTabs)"
    and o: "\<forall>p \<in> set acc. from_tab allTabs (fst p)"
  shows "length (filter (\<lambda>t. tab_windowId t = W
                           \<and> tab_id t \<in> set (map (\<lambda>p. cand_id (fst p)) acc)) allTabs)
           \<le> accepted_in W acc"
proof -
  define S where "S = set (map (\<lambda>p. cand_id (fst p)) acc)"
  define A where "A = filter (\<lambda>t. tab_windowId t = W \<and> tab_id t \<in> S) allTabs"
  define B where "B = filter (\<lambda>p. cand_windowId (fst p) = W) acc"
  have inj: "inj_on tab_id (set allTabs)" using d by (simp add: distinct_map)
  have "distinct (map tab_id A)" unfolding A_def using d by (rule distinct_map_filter)
  from distinct_card[OF this] have 1: "card (tab_id ` set A) = length A" by simp
  have sub: "tab_id ` set A \<subseteq> (\<lambda>p. cand_id (fst p)) ` set B"
  proof
    fix x assume "x \<in> tab_id ` set A"
    then obtain t where tA: "t \<in> set A" "tab_id t = x" by blast
    then have t: "t \<in> set allTabs" "tab_windowId t = W" "x \<in> S" by (simp_all add: A_def)
    from t(3) obtain p where p: "p \<in> set acc" "cand_id (fst p) = x"
      unfolding S_def by auto
    with o obtain t0 where t0: "t0 \<in> set allTabs" "tab_id t0 = cand_id (fst p)"
      "tab_windowId t0 = cand_windowId (fst p)"
      unfolding from_tab_def by blast
    have "tab_id t0 = tab_id t" using t0(2) p(2) tA(2) by simp
    then have "t0 = t" by (rule inj_onD[OF inj _ t0(1) t(1)])
    then have "cand_windowId (fst p) = W" using t(2) t0(3) by simp
    then have "p \<in> set B" using p(1) by (simp add: B_def)
    then show "x \<in> (\<lambda>p. cand_id (fst p)) ` set B" using p(2) by blast
  qed
  have "card (tab_id ` set A) \<le> card ((\<lambda>p. cand_id (fst p)) ` set B)"
    using sub by (simp add: card_mono)
  also have "\<dots> \<le> card (set B)" by (simp add: card_image_le)
  also have "\<dots> \<le> length B" by (rule card_length)
  finally have "length A \<le> length B" using 1 by simp
  then show ?thesis by (simp add: A_def B_def S_def accepted_in_def)
qed

lemma tabsToActuallyClose_origin:
  "\<forall>p \<in> set (tabsToActuallyClose H clk w). from_tab (host_tabs w) (fst p)"
proof -
  let ?s = "getSettings w"
  let ?scanned = "foldl (scan_step H ?s (date_now clk) (inactiveMinutes ?s * 60 * 1000)
                           (activatedDebounceTabId w))
                    (clamp_future (date_now clk) (tabLastAccessed w), []) (host_tabs w)"
  have c: "\<forall>c \<in> set (snd ?scanned). from_tab (host_tabs w) c"
    by (rule scan_candidates) simp_all
  have "fst ` set (tabsToActuallyClose H clk w) \<subseteq> set (snd ?scanned)"
    unfolding tabsToActuallyClose_def Let_def tabs_query_all_def
    using accept_loop_subset
      [of "date_now clk" "effective_minTabs ?s" "host_tabs w"
          "(map (\<lambda>e. (fst e, int (length (snd e)))) (group_by_window (host_tabs w)),
            foldl (reset_step (date_now clk) (effective_minTabs ?s)) (fst ?scanned)
              (group_by_window (host_tabs w)), [])"
          "filter (\<lambda>c. case map_of (map (\<lambda>e. (fst e, int (length (snd e))))
                                      (group_by_window (host_tabs w))) (cand_windowId c) of
                           None \<Rightarrow> False | Some n \<Rightarrow> n > effective_minTabs ?s)
                (sort_key (\<lambda>c. - cand_elapsed c) (snd ?scanned))"]
    by auto
  then show ?thesis using c by auto
qed

lemma tabsToActuallyClose_floor:
  assumes "\<exists>t \<in> set (host_tabs w). tab_windowId t = W"
  shows "int (accepted_in W (tabsToActuallyClose H clk w))
           \<le> max 0 (int (length (filter (\<lambda>t. tab_windowId t = W) (host_tabs w)))
                        - effective_minTabs (getSettings w))"
proof -
  let ?s = "getSettings w"
  let ?n = "int (length (filter (\<lambda>t. tab_windowId t = W) (host_tabs w)))"
  let ?m = "effective_minTabs ?s"
  let ?wr = "map (\<lambda>e. (fst e, int (length (snd e)))) (group_by_window (host_tabs w))"
  have wr: "map_of ?wr W = Some ?n"
    using assms by (simp add: windowRemaining_lookup)
  have e: "accepted_in W [] = 0" by (simp add: accepted_in_def)
  obtain la cs where
    acc: "tabsToActuallyClose H clk w
            = snd (snd (foldl (accept_step (date_now clk) ?m (host_tabs w)) (?wr, la, []) cs))"
    unfolding tabsToActuallyClose_def Let_def tabs_query_all_def by blast
  from accept_loop_floor[of "(?wr, la, [])" W ?n "date_now clk" ?m "host_tabs w" cs] wr
  obtain r' where r': "r' \<le> ?n"
    "int (accepted_in W (tabsToActuallyClose H clk w)) \<le> ?n - r'"
    "?m < ?n \<longrightarrow> ?m \<le> r'" "?n \<le> ?m \<longrightarrow> r' = ?n"
    unfolding acc by (auto simp: e)
  then show ?thesis by linarith
qed

lemma effective_minTabs_nonneg: "0 \<le> effective_minTabs s"
  by (simp add: effective_minTabs_def)

text \<open>
  Claim C2. For every window \<open>W\<close> and every pass of the reaper over a tab list with
  distinct identifiers, whatever the number of idle candidates: the pass closes at most
  (tab count of \<open>W\<close> minus \<open>minTabs\<close>) tabs of \<open>W\<close>, and none when that
  difference is not positive. So a window that had at least \<open>minTabs\<close> tabs still has at
  least \<open>minTabs\<close> afterwards, and a window at or below \<open>minTabs\<close> keeps all its tabs:
  the pass never takes a window below the floor. Here \<open>minTabs\<close> is the effective value,
  \<open>Math.max(0, settings.minTabs ?? 5)\<close>.
\<close>

theorem reaper_keeps_window_floor:
  assumes "distinct (map tab_id (host_tabs w))"
  shows "length (filter (\<lambda>t. tab_windowId t = W) (host_tabs (doInactiveCheck H clk w)))
           \<le> length (filter (\<lambda>t. tab_windowId t = W) (host_tabs w))
       \<and> int (length (filter (\<lambda>t. tab_windowId t = W) (host_tabs w)))
           - int (length (filter (\<lambda>t. tab_windowId t = W) (host_tabs (doInactiveCheck H clk w))))
           \<le> max 0 (int (length (filter (\<lambda>t. tab_windowId t = W) (host_tabs w)))
                        - effective_minTabs (getSettings w))
       \<and> (effective_minTabs (getSettings w)
             \<le> int (length (filter (\<lambda>t. tab_windowId t = W) (host_tabs w))) \<longrightarrow>
           effective_minTabs (getSettings w)
             \<le> int (length (filter (\<lambda>t. tab_windowId t = W)
                               (host_tabs (doInactiveCheck H clk w)))))
       \<and> (int (length (filter (\<lambda>t. tab_windowId t = W) (host_tabs w)))
             \<le> effective_minTabs (getSettings w) \<longrightarrow>
           length (filter (\<lambda>t. tab_windowId t = W) (host_tabs (doInactiveCheck H clk w)))
             = length (filter (\<lambda>t. tab_windowId t = W) (host_tabs w)))"
proof -
  define n where "n = length (filter (\<lambda>t. tab_windowId t = W) (host_tabs w))"
  define n' where
    "n' = length (filter (\<lambda>t. tab_windowId t = W) (host_tabs (doInactiveCheck H clk w)))"
  define m where "m = effective_minTabs (getSettings w)"
  define acc where "acc = tabsToActuallyClose H clk w"
  define k where
    "k = length (filter (\<lambda>t. tab_windowId t = W
                            \<and> tab_id t \<in> set (map (\<lambda>p. cand_id (fst p)) acc)) (host_tabs w))"
  have m0: "0 \<le> m" unfolding m_def by (rule effective_minTabs_nonneg)
  have main: "n' \<le> n \<and> int n - int n' \<le> max 0 (int n - m)"
  proof (cases "inactiveEnabled (getSettings w)")
    case False
    then have "n' = n" by (simp add: n'_def n_def doInactiveCheck_host_tabs)
    then show ?thesis by simp
  next
    case True
    then have "host_tabs (doInactiveCheck H clk w)
                 = filter (\<lambda>t. tab_id t \<notin> set (map (\<lambda>p. cand_id (fst p)) acc)) (host_tabs w)"
      by (simp add: doInactiveCheck_host_tabs acc_def)
    then have split: "n' + k = n"
      unfolding n'_def k_def n_def
      using filter_split_count
        [of "\<lambda>t. tab_windowId t = W" "set (map (\<lambda>p. cand_id (fst p)) acc)" "host_tabs w"]
      by simp
    have kb: "k \<le> accepted_in W acc"
      unfolding k_def acc_def
      using closed_count_bound[OF assms tabsToActuallyClose_origin] .
    show ?thesis
    proof (cases "\<exists>t \<in> set (host_tabs w). tab_windowId t = W")
      case True
      have "int (accepted_in W acc) \<le> max 0 (int n - m)"
        unfolding acc_def n_def m_def by (rule tabsToActuallyClose_floor[OF True])
      then show ?thesis using split kb by linarith
    next
      case False
      then have "n = 0" by (simp add: n_def filter_empty_conv)
      then show ?thesis using split by simp
    qed
  qed
  then have "n' \<le> n \<and> int n - int n' \<le> max 0 (int n - m)
       \<and> (m \<le> int n \<longrightarrow> m \<le> int n') \<and> (int n \<le> m \<longrightarrow> n' = n)"
    by linarith
  then show ?thesis unfolding n_def n'_def m_def .
qed

text \<open>
  A run: an active tab and two tabs idle for an hour in one window, threshold 30 minutes,
  \<open>minTabs = 2\<close>. The longest-idle tab is closed and the window is left with two tabs.
\<close>

lemma reaper_run:
  "map tab_id (host_tabs (doInactiveCheck plain_hostname reaper_clock reaper_world)) = [1, 3]"
  by code_simp

theorem reaper_keeps_window_floor_witness:
  "distinct (map tab_id (host_tabs reaper_world))
   \<and> length (filter (\<lambda>t. tab_windowId t = 1) (host_tabs reaper_world)) = 3
   \<and> effective_minTabs (getSettings reaper_world) = 2
   \<and> 2 \<le> length (filter (\<lambda>t. tab_windowId t = 1)
              (host_tabs (doInactiveCheck plain_hostname reaper_clock reaper_world)))
   \<and> effective_minTabs (getSettings (reaper_world\<lparr>settingsStore := Some (DEFAULT_SETTINGS\<lparr>inactiveEnabled := True\<rparr>)\<rparr>)) = 5
   \<and> length (filter (\<lambda>t. tab_windowId t = 1)
         (host_tabs (doInactiveCheck plain_hostname reaper_clock
            (reaper_world\<lparr>settingsStore := Some (DEFAULT_SETTINGS\<lparr>inactiveEnabled := True\<rparr>)\<rparr>)))) = 3"
proof -
  have d: "distinct (map tab_id (host_tabs reaper_world))"
    "distinct (map tab_id (host_tabs (reaper_world\<lparr>settingsStore := Some (DEFAULT_SETTINGS\<lparr>inactiveEnabled := True\<rparr>)\<rparr>)))"
    by (simp_all add: reaper_world_def example_world_def idle_tab_def)
  have n: "length (filter (\<lambda>t. tab_windowId t = 1) (host_tabs reaper_world)) = 3"
    "length (filter (\<lambda>t. tab_windowId t = 1)
       (host_tabs (reaper_world\<lparr>settingsStore := Some (DEFAULT_SETTINGS\<lparr>inactiveEnabled := True\<rparr>)\<rparr>))) = 3"
    by (simp_all add: reaper_world_def example_world_def idle_tab_def)
  have m: "effective_minTabs (getSettings reaper_world) = 2"
    "effective_minTabs (getSettings (reaper_world\<lparr>settingsStore := Some (DEFAULT_SETTINGS\<lparr>inactiveEnabled := True\<rparr>)\<rparr>)) = 5"
    by (simp_all add: effective_minTabs_def getSettings_def reaper_world_def example_world_def
        DEFAULT_SETTINGS_def)
  have a: "2 \<le> length (filter (\<lambda>t. tab_windowId t = 1)
              (host_tabs (doInactiveCheck plain_hostname reaper_clock reaper_world)))"
    using reaper_keeps_window_floor[OF d(1), of 1 plain_hostname reaper_clock]
    unfolding n m by linarith
  have b: "length (filter (\<lambda>t. tab_windowId t = 1)
         (host_tabs (doInactiveCheck plain_hostname reaper_clock
            (reaper_world\<lparr>settingsStore := Some (DEFAULT_SETTINGS\<lparr>inactiveEnabled := True\<rparr>)\<rparr>)))) = 3"
    using reaper_keeps_window_floor[OF d(2), of 1 plain_hostname reaper_clock]
    unfolding n m by linarith
  show ?thesis using d(1) n(1) m a b by blast
qed

end
